theory Spec2Isabelle
  imports Complex_Main
begin

section \<open>SafeSpeak report analyzer: the Gemini service\<close>

text \<open>
  A shallow embedding of \<^verbatim>\<open>backend/src/services/geminiService.js\<close> (with the
  one line of \<^verbatim>\<open>backend/config/env.js\<close> and the field constraints of
  \<^verbatim>\<open>backend/src/models/Report.js\<close> it depends on).

  The service is asynchronous JavaScript. The embedding makes explicit what the code leaves
  to the runtime:
  \<^item> a JavaScript string is a sequence of UTF-16 code units, here a list of integers
    (each from 0 to 65535);
  \<^item> a value built by \<^verbatim>\<open>JSON.parse\<close> is a \<open>json\<close> tree, and reading a property
    that is not there gives \<open>None\<close> (JavaScript's \<^verbatim>\<open>undefined\<close>);
  \<^item> everything that can throw returns \<open>js_error + 'a\<close>, and \<^verbatim>\<open>try/catch\<close> is a
    case distinction on that sum, whose handler may throw in its turn;
  \<^item> the outbound call is a parameter: a function from the prompt to what the endpoint
    does with it (resolve or reject after some milliseconds, or hang), and the number of
    calls made and the elapsed time are threaded through a \<open>world\<close> record.
  Console output is not modelled. The parameter \<^verbatim>\<open>description\<close> of
  \<^verbatim>\<open>analyzeReport\<close> is called \<open>report\<close> here and the \<^verbatim>\<open>model\<close> field of the status
  \<open>model_name\<close>, since a suggestion has a \<open>description\<close> and the module a \<open>model\<close>.
\<close>

subsection \<open>Strings\<close>

type_synonym code_unit = int
type_synonym js_string = "code_unit list"

definition cu :: "char \<Rightarrow> code_unit" where
  "cu c = of_char c"

definition js :: "string \<Rightarrow> js_string" where
  "js s = map cu s"

subsection \<open>JSON values and \<^verbatim>\<open>JSON.parse\<close>\<close>

text \<open>
  Numbers carry the exact value of their literal; the only thing the service observes of a
  number is whether it is falsy, that is whether the literal rounds to zero as a double
  (see \<open>truthy\<close> below). An object keeps its members in source order, duplicates included.
  The limits an engine puts on the size and the nesting of its input are not modelled.
\<close>

datatype json =
    JNull
  | JBool bool
  | JNumber rat
  | JString js_string
  | JArray "json list"
  | JObject "(js_string \<times> json) list"

text \<open>
  What a \<^verbatim>\<open>throw\<close> or a rejected promise carries. The engine throws SyntaxError and
  TypeError objects and the service throws \<^verbatim>\<open>new Error(message)\<close>; a promise of the
  client library may reject with any value. \<open>Error\<close> stands for every value whose
  \<^verbatim>\<open>message\<close> can be read, \<open>Nullish\<close> for \<^verbatim>\<open>null\<close> and \<^verbatim>\<open>undefined\<close>, on which
  reading \<^verbatim>\<open>message\<close> throws a TypeError.
\<close>

datatype js_error =
    SyntaxError
  | TypeError
  | Error js_string
  | Nullish

text \<open>\<^verbatim>\<open>e.message\<close>, as the two \<^verbatim>\<open>catch\<close> blocks read it for the console.\<close>

fun read_message :: "js_error \<Rightarrow> js_error + unit" where
  "read_message Nullish = Inl TypeError"
| "read_message e = Inr ()"

text \<open>
  The JSON grammar of ECMA-404, as \<^verbatim>\<open>JSON.parse\<close> implements it: insignificant
  whitespace is space, tab, line feed and carriage return; strings admit no raw control
  character, and a backslash introduces one of the escapes for quote, backslash, slash,
  b, f, n, r, t, or u with four hexadecimal digits (one code unit); numbers have no
  leading zero, and a fraction or an exponent needs at least one digit.
\<close>

definition is_ws :: "code_unit \<Rightarrow> bool" where
  "is_ws c = (c = 0x20 \<or> c = 0x09 \<or> c = 0x0A \<or> c = 0x0D)"

definition skip_ws :: "js_string \<Rightarrow> js_string" where
  "skip_ws cs = dropWhile is_ws cs"

definition is_digit :: "code_unit \<Rightarrow> bool" where
  "is_digit c = (0x30 \<le> c \<and> c \<le> 0x39)"

definition hex_digit :: "code_unit \<Rightarrow> code_unit option" where
  "hex_digit c =
     (if 0x30 \<le> c \<and> c \<le> 0x39 then Some (c - 0x30)
      else if 0x41 \<le> c \<and> c \<le> 0x46 then Some (c - 0x41 + 10)
      else if 0x61 \<le> c \<and> c \<le> 0x66 then Some (c - 0x61 + 10)
      else None)"

definition unescape :: "code_unit \<Rightarrow> code_unit option" where
  "unescape e =
     (if e = 0x22 then Some 0x22
      else if e = 0x5C then Some 0x5C
      else if e = 0x2F then Some 0x2F
      else if e = 0x62 then Some 0x08
      else if e = 0x66 then Some 0x0C
      else if e = 0x6E then Some 0x0A
      else if e = 0x72 then Some 0x0D
      else if e = 0x74 then Some 0x09
      else None)"

definition push_unit ::
  "code_unit \<Rightarrow> (js_string \<times> js_string) option \<Rightarrow> (js_string \<times> js_string) option" where
  "push_unit c r = map_option (\<lambda>(s, rest). (c # s, rest)) r"

text \<open>The characters of a string after its opening quote: the decoded string and what
  follows the closing quote.\<close>

fun json_string_chars :: "js_string \<Rightarrow> (js_string \<times> js_string) option" where
  "json_string_chars [] = None"
| "json_string_chars (c # cs) =
     (if c = 0x22 then Some ([], cs)
      else if c = 0x5C then
        (case cs of
           [] \<Rightarrow> None
         | e # es \<Rightarrow>
             if e = 0x75 then
               (case es of
                  h1 # h2 # h3 # h4 # r \<Rightarrow>
                    (case (hex_digit h1, hex_digit h2, hex_digit h3, hex_digit h4) of
                       (Some a, Some b, Some c', Some d) \<Rightarrow>
                         push_unit (4096 * a + 256 * b + 16 * c' + d) (json_string_chars r)
                     | _ \<Rightarrow> None)
                | _ \<Rightarrow> None)
             else
               (case unescape e of
                  None \<Rightarrow> None
                | Some u \<Rightarrow> push_unit u (json_string_chars es)))
      else if c < 0x20 then None
      else push_unit c (json_string_chars cs))"

definition digits_value :: "js_string \<Rightarrow> int" where
  "digits_value ds = foldl (\<lambda>a c. 10 * a + (c - 0x30)) 0 ds"

definition pow10 :: "int \<Rightarrow> rat" where
  "pow10 k = (if 0 \<le> k then 10 ^ nat k else 1 / 10 ^ nat (- k))"

definition json_fraction :: "js_string \<Rightarrow> (js_string \<times> js_string) option" where
  "json_fraction cs =
     (case cs of
        [] \<Rightarrow> Some ([], cs)
      | c # r \<Rightarrow>
          if c = 0x2E then
            (if takeWhile is_digit r = [] then None
             else Some (takeWhile is_digit r, dropWhile is_digit r))
          else Some ([], cs))"

definition json_exponent :: "js_string \<Rightarrow> (int \<times> js_string) option" where
  "json_exponent cs =
     (case cs of
        [] \<Rightarrow> Some (0, cs)
      | c # r \<Rightarrow>
          if c = 0x65 \<or> c = 0x45 then
            (let neg = (r \<noteq> [] \<and> hd r = 0x2D);
                 r' = (if r \<noteq> [] \<and> (hd r = 0x2D \<or> hd r = 0x2B) then tl r else r)
             in if takeWhile is_digit r' = [] then None
                else Some ((if neg then - 1 else 1) * digits_value (takeWhile is_digit r'),
                           dropWhile is_digit r'))
          else Some (0, cs))"

definition json_number :: "js_string \<Rightarrow> (rat \<times> js_string) option" where
  "json_number cs =
     (let neg = (cs \<noteq> [] \<and> hd cs = 0x2D);
          cs1 = (if neg then tl cs else cs);
          ip = takeWhile is_digit cs1
      in if ip = [] \<or> (1 < length ip \<and> hd ip = 0x30) then None
         else
           (case json_fraction (dropWhile is_digit cs1) of
              None \<Rightarrow> None
            | Some (fp, cs3) \<Rightarrow>
                (case json_exponent cs3 of
                   None \<Rightarrow> None
                 | Some (e, cs4) \<Rightarrow>
                     Some ((if neg then - 1 else 1) * of_int (digits_value (ip @ fp))
                             * pow10 (e - int (length fp)), cs4))))"

definition tag_value ::
  "('a \<Rightarrow> json) \<Rightarrow> ('a \<times> js_string) option \<Rightarrow> (json \<times> js_string) option" where
  "tag_value f r = map_option (\<lambda>(x, rest). (f x, rest)) r"

definition json_literal :: "js_string \<Rightarrow> (json \<times> js_string) option" where
  "json_literal cs =
     (if take 4 cs = js ''true'' then Some (JBool True, drop 4 cs)
      else if take 5 cs = js ''false'' then Some (JBool False, drop 5 cs)
      else if take 4 cs = js ''null'' then Some (JNull, drop 4 cs)
      else None)"

text \<open>
  Recursive descent, on fuel: every call spends one unit, and \<open>JSON_parse\<close> supplies
  \<open>2 * length text + 1\<close> units. A value holds at least one code unit and so does the
  bracket or comma before the next one, so the supply is never exhausted
  (lemma \<open>JSON_parse_fuel\<close>).
\<close>

fun json_value :: "nat \<Rightarrow> js_string \<Rightarrow> (json \<times> js_string) option"
  and json_elements :: "nat \<Rightarrow> js_string \<Rightarrow> (json list \<times> js_string) option"
  and json_members :: "nat \<Rightarrow> js_string \<Rightarrow> ((js_string \<times> json) list \<times> js_string) option"
where
  "json_value 0 cs = None"
| "json_value (Suc n) cs =
     (case skip_ws cs of
        [] \<Rightarrow> None
      | c # r \<Rightarrow>
          if c = 0x7B then
            (case skip_ws r of
               [] \<Rightarrow> None
             | d # r' \<Rightarrow>
                 if d = 0x7D then Some (JObject [], r')
                 else tag_value JObject (json_members n (d # r')))
          else if c = 0x5B then
            (case skip_ws r of
               [] \<Rightarrow> None
             | d # r' \<Rightarrow>
                 if d = 0x5D then Some (JArray [], r')
                 else tag_value JArray (json_elements n (d # r')))
          else if c = 0x22 then tag_value JString (json_string_chars r)
          else if c = 0x2D \<or> is_digit c then tag_value JNumber (json_number (c # r))
          else json_literal (c # r))"
| "json_elements 0 cs = None"
| "json_elements (Suc n) cs =
     (case json_value n cs of
        None \<Rightarrow> None
      | Some (v, r) \<Rightarrow>
          (case skip_ws r of
             [] \<Rightarrow> None
           | c # r' \<Rightarrow>
               if c = 0x2C then
                 (case json_elements n r' of
                    None \<Rightarrow> None
                  | Some (vs, r'') \<Rightarrow> Some (v # vs, r''))
               else if c = 0x5D then Some ([v], r')
               else None))"
| "json_members 0 cs = None"
| "json_members (Suc n) cs =
     (case skip_ws cs of
        [] \<Rightarrow> None
      | q # r \<Rightarrow>
          if q = 0x22 then
            (case json_string_chars r of
               None \<Rightarrow> None
             | Some (k, r1) \<Rightarrow>
                 (case skip_ws r1 of
                    [] \<Rightarrow> None
                  | c # r2 \<Rightarrow>
                      if c = 0x3A then
                        (case json_value n r2 of
                           None \<Rightarrow> None
                         | Some (v, r3) \<Rightarrow>
                             (case skip_ws r3 of
                                [] \<Rightarrow> None
                              | e # r4 \<Rightarrow>
                                  if e = 0x2C then
                                    (case json_members n r4 of
                                       None \<Rightarrow> None
                                     | Some (ms, r5) \<Rightarrow> Some ((k, v) # ms, r5))
                                  else if e = 0x7D then Some ([(k, v)], r4)
                                  else None))
                      else None))
          else None)"

definition JSON_parse :: "js_string \<Rightarrow> js_error + json" where
  "JSON_parse text =
     (case json_value (2 * length text + 1) text of
        None \<Rightarrow> Inl SyntaxError
      | Some (v, r) \<Rightarrow> if skip_ws r = [] then Inr v else Inl SyntaxError)"


subsection \<open>What JavaScript does with a parsed value\<close>

text \<open>
  Truthiness: \<^verbatim>\<open>null\<close>, \<^verbatim>\<open>false\<close>, the empty string and zero are falsy; objects
  and arrays, empty ones too, are truthy. A number literal is zero as a double exactly when
  its magnitude is at most \<open>2 ^ -1075\<close>, half of the least positive double
  (round to nearest, ties to even).
\<close>

fun truthy :: "json \<Rightarrow> bool" where
  "truthy JNull = False"
| "truthy (JBool b) = b"
| "truthy (JNumber q) = (1 / 2 ^ 1075 < \<bar>q\<bar>)"
| "truthy (JString s) = (s \<noteq> [])"
| "truthy (JArray xs) = True"
| "truthy (JObject ms) = True"

text \<open>
  Reading a property \<^verbatim>\<open>v.k\<close>. On \<^verbatim>\<open>null\<close> it throws a TypeError; on an object it
  is the last member of that name (a later duplicate overwrites an earlier one); on every
  other value it is \<^verbatim>\<open>undefined\<close> for the names the service reads
  (\<^verbatim>\<open>category severity summary suggestions type name description contact\<close>), none of
  which a prototype defines.
\<close>

fun get_prop :: "json \<Rightarrow> js_string \<Rightarrow> js_error + json option" where
  "get_prop JNull k = Inl TypeError"
| "get_prop (JObject ms) k = Inr (map_of (rev ms) k)"
| "get_prop v k = Inr None"

text \<open>\<^verbatim>\<open>!x\<close> and \<^verbatim>\<open>x || d\<close> on a property that may be undefined.\<close>

definition falsy :: "json option \<Rightarrow> bool" where
  "falsy x = (case x of None \<Rightarrow> True | Some v \<Rightarrow> \<not> truthy v)"

definition or_default :: "json option \<Rightarrow> json \<Rightarrow> json" where
  "or_default x d = (case x of None \<Rightarrow> d | Some v \<Rightarrow> if truthy v then v else d)"

subsection \<open>The regular expression\<close>

text \<open>
  \<^verbatim>\<open>text.match(/\{[\s\S]*\}/)\<close>: the leftmost position where the pattern matches, and
  there the longest match, since the star is greedy and gives characters back only until a
  closing brace follows. \<open>greedy_to_brace\<close> is the pattern after its opening brace.
\<close>

fun greedy_to_brace :: "js_string \<Rightarrow> js_string option" where
  "greedy_to_brace [] = None"
| "greedy_to_brace (c # cs) =
     (case greedy_to_brace cs of
        Some m \<Rightarrow> Some (c # m)
      | None \<Rightarrow> if c = 0x7D then Some [c] else None)"

definition match_here :: "js_string \<Rightarrow> js_string option" where
  "match_here cs =
     (case cs of
        [] \<Rightarrow> None
      | c # r \<Rightarrow> if c = 0x7B then map_option (\<lambda>m. c # m) (greedy_to_brace r) else None)"

fun regex_match :: "js_string \<Rightarrow> js_string option" where
  "regex_match [] = None"
| "regex_match (c # cs) =
     (case match_here (c # cs) of
        Some m \<Rightarrow> Some m
      | None \<Rightarrow> regex_match cs)"

subsection \<open>Configuration and the model handle\<close>

text \<open>
  \<^verbatim>\<open>optionalEnv(name, defaultValue)\<close> is \<^verbatim>\<open>process.env[name] || defaultValue\<close>, and the
  key is \<^verbatim>\<open>optionalEnv('GEMINI_API_KEY', '')\<close>: an unset variable and an empty one both
  give the empty string. The module creates the client once, when it is loaded, and only
  if the key is truthy.
\<close>

type_synonym process_env = "js_string \<rightharpoonup> js_string"

definition optionalEnv :: "process_env \<Rightarrow> js_string \<Rightarrow> js_string \<Rightarrow> js_string" where
  "optionalEnv env name defaultValue =
     (case env name of
        None \<Rightarrow> defaultValue
      | Some v \<Rightarrow> if v \<noteq> [] then v else defaultValue)"

record config =
  geminiApiKey :: js_string

definition load_config :: "process_env \<Rightarrow> config" where
  "load_config env = \<lparr>geminiApiKey = optionalEnv env (js ''GEMINI_API_KEY'') []\<rparr>"

datatype generative_model = GenerativeModel js_string

definition init_model :: "config \<Rightarrow> generative_model option" where
  "init_model cfg =
     (if geminiApiKey cfg \<noteq> [] then Some (GenerativeModel (js ''gemini-2.5-flash''))
      else None)"

subsection \<open>The prompt\<close>

definition ANALYSIS_PROMPT :: js_string where
  \<open>ANALYSIS_PROMPT = js (
     ''You are a compassionate safety analyst helping anonymous reporters.\<newline>'' @
     ''Analyze the following incident report and provide structured guidance.\<newline>'' @
     ''\<newline>'' @
     ''IMPORTANT RULES:\<newline>'' @
     ''- Be supportive and non-judgmental\<newline>'' @
     ''- Focus on actionable next steps\<newline>'' @
     ''- Suggest relevant resources (NGOs, legal aid, hotlines)\<newline>'' @
     ''- Keep suggestions practical and accessible\<newline>'' @
     ''\<newline>'' @
     ''Respond ONLY with valid JSON in this exact format:\<newline>'' @
     ''{\<newline>'' @
     ''  "category": "harassment" | "corruption" | "abuse" | "discrimination" | "other",\<newline>'' @
     ''  "severity": "low" | "medium" | "high" | "critical",\<newline>'' @
     ''  "summary": "Brief 1-2 sentence summary of the incident",\<newline>'' @
     ''  "suggestions": [\<newline>'' @
     ''    {\<newline>'' @
     ''      "type": "ngo" | "legal" | "hotline" | "journalist" | "government",\<newline>'' @
     ''      "name": "Organization or resource name",\<newline>'' @
     ''      "description": "Brief description of how they can help",\<newline>'' @
     ''      "contact": "Website, phone, or email"\<newline>'' @
     ''    }\<newline>'' @
     ''  ]\<newline>'' @
     ''}\<newline>'' @
     ''\<newline>'' @
     ''CATEGORY GUIDELINES:\<newline>'' @
     ''- harassment: Workplace bullying, sexual harassment, intimidation\<newline>'' @
     ''- corruption: Bribery, fraud, misuse of power, financial crimes\<newline>'' @
     ''- abuse: Physical, emotional, or psychological harm\<newline>'' @
     ''- discrimination: Bias based on race, gender, religion, disability, etc.\<newline>'' @
     ''- other: Doesn't fit above categories\<newline>'' @
     ''\<newline>'' @
     ''SEVERITY GUIDELINES:\<newline>'' @
     ''- low: Minor issues, no immediate danger\<newline>'' @
     ''- medium: Significant concern, should be addressed soon\<newline>'' @
     ''- high: Serious situation, needs prompt attention\<newline>'' @
     ''- critical: Immediate danger or ongoing harm\<newline>'' @
     ''\<newline>'' @
     ''INCIDENT REPORT:\<newline>'')\<close>

subsection \<open>The outbound call and the timeout race\<close>

text \<open>
  \<^verbatim>\<open>model.generateContent(fullPrompt)\<close> returns a promise. It resolves with a result or
  it rejects, each some milliseconds after the call; or it never settles. A call that
  throws at once is a rejection after 0 ms. Line 110 awaits \<^verbatim>\<open>result.response\<close> after
  the race, with no timer beside it: the client library puts a response object there,
  whose \<^verbatim>\<open>text()\<close> returns a string or throws (a blocked answer); were it a promise,
  it could also reject or never settle. A result or a response that lacks what the
  service reads of it makes the engine throw a TypeError, as a \<^verbatim>\<open>text()\<close> that throws
  one does; the time a promise in \<^verbatim>\<open>result.response\<close> would take to settle is not
  counted.
\<close>

datatype response =
    Text js_string
  | Text_throws js_error
  | Response_rejects js_error
  | Response_pending

datatype generation =
    Resolves nat response
  | Rejects nat js_error
  | Hangs

type_synonym endpoint = "js_string \<Rightarrow> generation"

record world =
  network_calls :: nat
  clock :: nat

definition timeoutMs :: nat where
  "timeoutMs = 30000"

text \<open>
  \<^verbatim>\<open>Promise.race([resultPromise, timeoutPromise])\<close> settles as the first of its two
  promises does: the value it settles with, and the milliseconds it took. When both are
  due in the same millisecond the timer wins here; no property below depends on that.
\<close>

definition timed_out :: "js_error" where
  "timed_out = Error (js ''AI request timed out'')"

fun race :: "generation \<Rightarrow> (js_error + response) \<times> nat" where
  "race (Resolves t r) = (if t < timeoutMs then (Inr r, t) else (Inl timed_out, timeoutMs))"
| "race (Rejects t e) = (if t < timeoutMs then (Inl e, t) else (Inl timed_out, timeoutMs))"
| "race Hangs = (Inl timed_out, timeoutMs)"

subsection \<open>The analysis result\<close>

record Suggestion =
  type :: json
  name :: json
  description :: json
  contact :: json

record AnalysisResult =
  aiAnalyzed :: bool
  aiCategory :: json
  aiSeverity :: json
  aiSummary :: json
  aiSuggestions :: "Suggestion list"

definition getFallbackResponse :: AnalysisResult where
  \<open>getFallbackResponse =
     \<lparr>aiAnalyzed = False,
      aiCategory = JString (js ''unknown''),
      aiSeverity = JString (js ''unknown''),
      aiSummary = JString (js (''Your report has been received. Our automated analysis is '' @
        ''temporarily unavailable, but your report will be reviewed by our team.'')),
      aiSuggestions =
        [\<lparr>type = JString (js ''hotline''),
          name = JString (js ''National Human Rights Helpline''),
          description = JString (js ''General support for human rights issues''),
          contact = JString (js ''1800-XXX-XXXX (toll-free)'')\<rparr>,
         \<lparr>type = JString (js ''ngo''),
          name = JString (js ''Local Support Services''),
          description = JString (js ''Connect with local NGOs that can provide guidance''),
          contact = JString (js ''Visit your local community center'')\<rparr>,
         \<lparr>type = JString (js ''legal''),
          name = JString (js ''Free Legal Aid''),
          description = JString (js ''Many areas offer free legal consultation''),
          contact = JString (js ''Search "free legal aid" + your location'')\<rparr>]\<rparr>\<close>

subsection \<open>\<^verbatim>\<open>analyzeReport\<close>\<close>

text \<open>
  The arrow function given to \<^verbatim>\<open>map\<close>. Its four property reads throw on a
  \<^verbatim>\<open>null\<close> element and on no other.
\<close>

definition normalize_suggestion :: "json \<Rightarrow> js_error + Suggestion" where
  "normalize_suggestion s =
     (case get_prop s (js ''type'') of
        Inl e \<Rightarrow> Inl e
      | Inr t \<Rightarrow>
     (case get_prop s (js ''name'') of
        Inl e \<Rightarrow> Inl e
      | Inr n \<Rightarrow>
     (case get_prop s (js ''description'') of
        Inl e \<Rightarrow> Inl e
      | Inr d \<Rightarrow>
     (case get_prop s (js ''contact'') of
        Inl e \<Rightarrow> Inl e
      | Inr c \<Rightarrow>
          Inr \<lparr>type = or_default t (JString (js ''other'')),
               name = or_default n (JString (js ''Resource'')),
               description = or_default d (JString []),
               contact = or_default c (JString [])\<rparr>))))"

text \<open>\<^verbatim>\<open>Array.prototype.map\<close>, left to right; the first throw ends it.\<close>

fun map_suggestions :: "json list \<Rightarrow> js_error + Suggestion list" where
  "map_suggestions [] = Inr []"
| "map_suggestions (s # ss) =
     (case normalize_suggestion s of
        Inl e \<Rightarrow> Inl e
      | Inr x \<Rightarrow>
          (case map_suggestions ss of
             Inl e \<Rightarrow> Inl e
           | Inr xs \<Rightarrow> Inr (x # xs)))"

text \<open>
  \<^verbatim>\<open>analysis.suggestions.map(...)\<close> on a truthy value: only an array has a \<^verbatim>\<open>map\<close>
  method. On a string, a number or \<^verbatim>\<open>true\<close> the property is undefined, on an object it
  is undefined or a JSON value, and calling either throws a TypeError.
\<close>

fun call_map :: "json \<Rightarrow> js_error + Suggestion list" where
  "call_map (JArray xs) = map_suggestions xs"
| "call_map v = Inl TypeError"

text \<open>The body of the inner \<^verbatim>\<open>try\<close>, lines 116 to 142 of the service.\<close>

definition parse_analysis :: "js_string \<Rightarrow> js_error + AnalysisResult" where
  "parse_analysis text =
     (case regex_match text of
        None \<Rightarrow> Inl (Error (js ''No JSON found in response''))
      | Some jsonMatch \<Rightarrow>
     (case JSON_parse jsonMatch of
        Inl e \<Rightarrow> Inl e
      | Inr analysis \<Rightarrow>
     (case get_prop analysis (js ''category'') of
        Inl e \<Rightarrow> Inl e
      | Inr category \<Rightarrow>
     (case get_prop analysis (js ''severity'') of
        Inl e \<Rightarrow> Inl e
      | Inr severity \<Rightarrow>
     (case get_prop analysis (js ''suggestions'') of
        Inl e \<Rightarrow> Inl e
      | Inr suggestions \<Rightarrow>
          if falsy category \<or> falsy severity \<or> falsy suggestions
          then Inl (Error (js ''Missing required fields in AI response''))
          else
            (case get_prop analysis (js ''summary'') of
               Inl e \<Rightarrow> Inl e
             | Inr summary \<Rightarrow>
            (case call_map (the suggestions) of
               Inl e \<Rightarrow> Inl e
             | Inr mapped \<Rightarrow>
                 Inr \<lparr>aiAnalyzed = True,
                      aiCategory = the category,
                      aiSeverity = the severity,
                      aiSummary = or_default summary (JString (js ''Analysis completed'')),
                      aiSuggestions = mapped\<rparr>)))))))"

text \<open>
  \<^verbatim>\<open>try { ... } catch (e) { ... }\<close>: what the handler throws leaves the statement.
\<close>

definition try_catch :: "js_error + 'a \<Rightarrow> (js_error \<Rightarrow> js_error + 'a) \<Rightarrow> js_error + 'a" where
  "try_catch body handler = (case body of Inl e \<Rightarrow> handler e | Inr v \<Rightarrow> Inr v)"

text \<open>
  The inner handler, lines 144 to 148: it reads \<^verbatim>\<open>parseError.message\<close> for the
  console, takes \<^verbatim>\<open>text.substring(0, 200)\<close> of the string, and returns the fallback.
\<close>

definition catch_parseError :: "js_error \<Rightarrow> js_error + AnalysisResult" where
  "catch_parseError parseError =
     (case read_message parseError of
        Inl e \<Rightarrow> Inl e
      | Inr logged \<Rightarrow> Inr getFallbackResponse)"

text \<open>
  The outer handler, lines 150 to 154: it reads \<^verbatim>\<open>error.message\<close> for the console and
  returns the fallback. Nothing encloses it: what it throws, \<^verbatim>\<open>analyzeReport\<close> throws.
\<close>

definition catch_error :: "js_error \<Rightarrow> js_error + AnalysisResult" where
  "catch_error error =
     (case read_message error of
        Inl e \<Rightarrow> Inl e
      | Inr logged \<Rightarrow> Inr getFallbackResponse)"

text \<open>
  The outer \<^verbatim>\<open>try\<close> body after the race has settled: \<^verbatim>\<open>await result.response\<close>,
  \<^verbatim>\<open>response.text()\<close>, then the inner \<^verbatim>\<open>try/catch\<close>. \<open>None\<close> is a body that never
  completes, because the awaited promise never settles.
\<close>

definition after_race :: "js_error + response \<Rightarrow> (js_error + AnalysisResult) option" where
  "after_race settled =
     (case settled of
        Inl e \<Rightarrow> Some (Inl e)
      | Inr Response_pending \<Rightarrow> None
      | Inr (Response_rejects e) \<Rightarrow> Some (Inl e)
      | Inr (Text_throws e) \<Rightarrow> Some (Inl e)
      | Inr (Text text) \<Rightarrow> Some (try_catch (parse_analysis text) catch_parseError))"

text \<open>
  The promise \<^verbatim>\<open>analyzeReport\<close> returns: fulfilled with a result, \<open>Some (Inr r)\<close>;
  rejected, \<open>Some (Inl e)\<close>; or never settled, \<open>None\<close>.
\<close>

definition analyzeReport ::
  "generative_model option \<Rightarrow> endpoint \<Rightarrow> js_string \<Rightarrow> world
     \<Rightarrow> (js_error + AnalysisResult) option \<times> world" where
  "analyzeReport model generateContent report w =
     (case model of
        None \<Rightarrow> (Some (Inr getFallbackResponse), w)
      | Some m \<Rightarrow>
          (let fullPrompt = ANALYSIS_PROMPT @ report;
               (settled, ms) = race (generateContent fullPrompt)
           in (map_option (\<lambda>body. try_catch body catch_error) (after_race settled),
               w\<lparr>network_calls := network_calls w + 1, clock := clock w + ms\<rparr>)))"

subsection \<open>\<^verbatim>\<open>getAIStatus\<close>\<close>

record AIStatus =
  configured :: bool
  provider :: js_string
  model_name :: js_string

definition getAIStatus :: "generative_model option \<Rightarrow> world \<Rightarrow> AIStatus \<times> world" where
  "getAIStatus model w =
     (\<lparr>configured = (model \<noteq> None),
       provider = js ''Google Gemini'',
       model_name = js ''gemini-2.5-flash''\<rparr>, w)"

subsection \<open>The constraints of the Report schema on the analysis fields\<close>

text \<open>
  \<^verbatim>\<open>models/Report.js\<close>: the values \<^verbatim>\<open>aiCategory\<close> and \<^verbatim>\<open>aiSeverity\<close> may take, and
  the greatest length of \<^verbatim>\<open>aiSummary\<close>. The report route spreads the analysis result
  into a new Report and saves it, and the save validates these.
\<close>

definition aiCategory_enum :: "js_string list" where
  "aiCategory_enum = map js [''harassment'', ''corruption'', ''abuse'', ''discrimination'',
     ''other'', ''unknown'']"

definition aiSeverity_enum :: "js_string list" where
  "aiSeverity_enum = map js [''low'', ''medium'', ''high'', ''critical'', ''unknown'']"

definition aiSummary_maxlength :: nat where
  "aiSummary_maxlength = 500"


subsection \<open>Vocabulary of the properties\<close>

text \<open>The call settles within a bound when it resolves or rejects no later than it.\<close>

fun settles_within :: "nat \<Rightarrow> generation \<Rightarrow> bool" where
  "settles_within bound (Resolves t r) = (t \<le> bound)"
| "settles_within bound (Rejects t e) = (t \<le> bound)"
| "settles_within bound Hangs = False"


section \<open>Properties\<close>

subsection \<open>Evaluating truthiness\<close>

text \<open>
  The same function, with the power of two looked at only for a number strictly between
  0 and 1 in magnitude.
\<close>

lemma truthy_code [code]:
  "truthy JNull = False"
  "truthy (JBool b) = b"
  "truthy (JNumber q) =
     (if q = 0 then False else if 1 \<le> \<bar>q\<bar> then True else 1 / 2 ^ 1075 < \<bar>q\<bar>)"
  "truthy (JString s) = (s \<noteq> [])"
  "truthy (JArray xs) = True"
  "truthy (JObject ms) = True"
proof -
  have "(1::rat) / 2 ^ 1075 < 1"
    by (simp add: divide_less_eq)
  then show "truthy (JNumber q) =
     (if q = 0 then False else if 1 \<le> \<bar>q\<bar> then True else 1 / 2 ^ 1075 < \<bar>q\<bar>)"
    by auto
qed simp_all

subsection \<open>The fuel of the JSON parser\<close>

text \<open>
  A successful run of the parser consumes input, and it succeeds again, with the same
  result, on any fuel of at least twice the number of code units it consumed.
\<close>

lemma skip_ws_length: "length (skip_ws cs) \<le> length cs"
  by (simp add: skip_ws_def length_dropWhile_le)

lemma skip_ws_Cons_length: "skip_ws cs = c # r \<Longrightarrow> length r < length cs"
  using skip_ws_length [of cs] by simp

lemma push_unit_Some:
  "push_unit c x = Some (s, r) \<Longrightarrow> \<exists>s'. x = Some (s', r)"
  by (cases x) (auto simp: push_unit_def)

lemma json_string_chars_length:
  "json_string_chars cs = Some (s, r) \<Longrightarrow> length r < length cs"
proof (induction cs arbitrary: s r rule: json_string_chars.induct)
  case 1
  then show ?case by simp
next
  case (2 c cs)
  show ?case
  proof (cases "c = 0x22")
    case True
    with "2.prems" show ?thesis by simp
  next
    case quote: False
    show ?thesis
    proof (cases "c = 0x5C")
      case False
      with quote "2.prems" have ok: "\<not> c < 0x20" and "push_unit c (json_string_chars cs) = Some (s, r)"
        by (auto split: if_splits)
      then obtain s' where "json_string_chars cs = Some (s', r)"
        using push_unit_Some by blast
      with "2.IH"(3) quote False ok have "length r < length cs" by simp
      then show ?thesis by simp
    next
      case True
      with quote "2.prems" obtain e es where cs: "cs = e # es"
        by (cases cs) auto
      show ?thesis
      proof (cases "e = 0x75")
        case False
        with quote True cs "2.prems" obtain u where u: "unescape e = Some u"
          and "push_unit u (json_string_chars es) = Some (s, r)"
          by (auto split: option.splits)
        then obtain s' where "json_string_chars es = Some (s', r)"
          using push_unit_Some by blast
        with "2.IH"(2) quote True cs False u have "length r < length es" by simp
        with cs show ?thesis by simp
      next
        case u: True
        with quote True cs "2.prems" obtain h1 h2 h3 h4 rest a b c' d where
          es: "es = h1 # h2 # h3 # h4 # rest"
          and h: "hex_digit h1 = Some a" "hex_digit h2 = Some b" "hex_digit h3 = Some c'"
            "hex_digit h4 = Some d"
          and p: "push_unit (4096 * a + 256 * b + 16 * c' + d) (json_string_chars rest) = Some (s, r)"
          by (auto split: list.splits option.splits)
        then obtain s' where "json_string_chars rest = Some (s', r)"
          using push_unit_Some by blast
        with "2.IH"(1) [of e es h1 "h2 # h3 # h4 # rest" h2 "h3 # h4 # rest" h3 "h4 # rest" h4 rest]
          quote True cs u es h
        have "length r < length rest" by simp
        with cs es show ?thesis by simp
      qed
    qed
  qed
qed

lemma json_fraction_length: "json_fraction cs = Some (fp, r) \<Longrightarrow> length r \<le> length cs"
  by (auto simp: json_fraction_def split: list.splits if_splits
      intro: le_trans [OF length_dropWhile_le])

lemma json_exponent_length: "json_exponent cs = Some (e, r) \<Longrightarrow> length r \<le> length cs"
  by (auto simp: json_exponent_def Let_def split: list.splits if_splits
      intro: le_trans [OF length_dropWhile_le] le_SucI)

lemma dropWhile_shorter: "takeWhile P xs \<noteq> [] \<Longrightarrow> length (dropWhile P xs) < length xs"
  by (cases xs) (auto simp: less_Suc_eq_le length_dropWhile_le split: if_splits)

lemma json_number_length: "json_number cs = Some (q, r) \<Longrightarrow> length r < length cs"
proof -
  assume a: "json_number cs = Some (q, r)"
  define cs1 where "cs1 = (if cs \<noteq> [] \<and> hd cs = 0x2D then tl cs else cs)"
  have cs1: "length cs1 \<le> length cs" by (simp add: cs1_def)
  from a have ip: "takeWhile is_digit cs1 \<noteq> []"
    by (auto simp: json_number_def Let_def cs1_def split: if_splits)
  from a obtain fp cs3 e where f: "json_fraction (dropWhile is_digit cs1) = Some (fp, cs3)"
    and x: "json_exponent cs3 = Some (e, r)"
    by (auto simp: json_number_def Let_def cs1_def split: if_splits option.splits)
  from dropWhile_shorter [OF ip] json_fraction_length [OF f] json_exponent_length [OF x] cs1
  show ?thesis by simp
qed

lemma json_literal_length: "json_literal cs = Some (v, r) \<Longrightarrow> length r < length cs"
  by (cases cs) (auto simp: json_literal_def js_def split: if_splits)

lemma tag_value_Some:
  "tag_value f x = Some (v, r) \<Longrightarrow> \<exists>y. x = Some (y, r) \<and> v = f y"
  by (cases x) (auto simp: tag_value_def)

lemma json_value_step:
  assumes members: "\<And>cs ms r. json_members n cs = Some (ms, r) \<Longrightarrow>
      length r < length cs \<and>
      (\<forall>m. 2 * (length cs - length r) \<le> m \<longrightarrow> json_members m cs = Some (ms, r))"
    and elements: "\<And>cs vs r. json_elements n cs = Some (vs, r) \<Longrightarrow>
      length r < length cs \<and>
      (\<forall>m. 2 * (length cs - length r) \<le> m \<longrightarrow> json_elements m cs = Some (vs, r))"
    and run: "json_value (Suc n) cs = Some (v, r)"
  shows "length r < length cs \<and>
      (\<forall>m. 2 * (length cs - length r) \<le> m \<longrightarrow> json_value m cs = Some (v, r))"
proof -
  from run obtain c rest where sk: "skip_ws cs = c # rest"
    by (auto split: list.splits)
  have rest: "length rest < length cs"
    by (rule skip_ws_Cons_length [OF sk])
  have scalar: ?thesis
    if short: "length r < length cs" and same: "\<And>k. json_value (Suc k) cs = Some (v, r)"
  proof (intro conjI allI impI)
    show "length r < length cs" by (rule short)
    fix m assume "2 * (length cs - length r) \<le> m"
    with short obtain k where "m = Suc k" by (cases m) auto
    with same show "json_value m cs = Some (v, r)" by simp
  qed
  consider (obj) "c = 0x7B" | (arr) "c \<noteq> 0x7B" "c = 0x5B"
    | (str) "c \<noteq> 0x7B" "c \<noteq> 0x5B" "c = 0x22"
    | (num) "c \<noteq> 0x7B" "c \<noteq> 0x5B" "c \<noteq> 0x22" "c = 0x2D \<or> is_digit c"
    | (lit) "c \<noteq> 0x7B" "c \<noteq> 0x5B" "c \<noteq> 0x22" "\<not> (c = 0x2D \<or> is_digit c)"
    by blast
  then show ?thesis
  proof cases
    case obj
    with run sk obtain d r' where sk2: "skip_ws rest = d # r'"
      by (auto split: list.splits)
    have r': "length r' < length rest"
      by (rule skip_ws_Cons_length [OF sk2])
    show ?thesis
    proof (cases "d = 0x7D")
      case True
      with run sk obj sk2 have "v = JObject []" "r = r'" by auto
      with rest r' sk obj sk2 True show ?thesis
        by (intro scalar) auto
    next
      case False
      with run sk obj sk2 have "tag_value JObject (json_members n (d # r')) = Some (v, r)"
        by simp
      then obtain ms where ms: "json_members n (d # r') = Some (ms, r)" and v: "v = JObject ms"
        using tag_value_Some by blast
      from members [OF ms] have short: "length r < length (d # r')"
        and enough: "\<And>m. 2 * (length (d # r') - length r) \<le> m \<Longrightarrow>
          json_members m (d # r') = Some (ms, r)"
        by auto
      show ?thesis
      proof (intro conjI allI impI)
        from short r' rest show "length r < length cs" by simp
        fix m assume m: "2 * (length cs - length r) \<le> m"
        with short r' rest obtain k where k: "m = Suc k" by (cases m) auto
        with m short r' rest have "2 * (length (d # r') - length r) \<le> k" by simp
        from enough [OF this] k sk obj sk2 False v
        show "json_value m cs = Some (v, r)" by (simp add: tag_value_def)
      qed
    qed
  next
    case arr
    with run sk obtain d r' where sk2: "skip_ws rest = d # r'"
      by (auto split: list.splits)
    have r': "length r' < length rest"
      by (rule skip_ws_Cons_length [OF sk2])
    show ?thesis
    proof (cases "d = 0x5D")
      case True
      with run sk arr sk2 have "v = JArray []" "r = r'" by auto
      with rest r' sk arr sk2 True show ?thesis
        by (intro scalar) auto
    next
      case False
      with run sk arr sk2 have "tag_value JArray (json_elements n (d # r')) = Some (v, r)"
        by simp
      then obtain vs where vs: "json_elements n (d # r') = Some (vs, r)" and v: "v = JArray vs"
        using tag_value_Some by blast
      from elements [OF vs] have short: "length r < length (d # r')"
        and enough: "\<And>m. 2 * (length (d # r') - length r) \<le> m \<Longrightarrow>
          json_elements m (d # r') = Some (vs, r)"
        by auto
      show ?thesis
      proof (intro conjI allI impI)
        from short r' rest show "length r < length cs" by simp
        fix m assume m: "2 * (length cs - length r) \<le> m"
        with short r' rest obtain k where k: "m = Suc k" by (cases m) auto
        with m short r' rest have "2 * (length (d # r') - length r) \<le> k" by simp
        from enough [OF this] k sk arr sk2 False v
        show "json_value m cs = Some (v, r)" by (simp add: tag_value_def)
      qed
    qed
  next
    case str
    with run sk have t: "tag_value JString (json_string_chars rest) = Some (v, r)"
      by simp
    then obtain s where "json_string_chars rest = Some (s, r)"
      using tag_value_Some by blast
    from json_string_chars_length [OF this] rest have "length r < length cs" by simp
    moreover from t sk str have "json_value (Suc k) cs = Some (v, r)" for k by simp
    ultimately show ?thesis by (rule scalar)
  next
    case num
    with run sk have t: "tag_value JNumber (json_number (c # rest)) = Some (v, r)"
      by auto
    then obtain q where "json_number (c # rest) = Some (q, r)"
      using tag_value_Some by blast
    from json_number_length [OF this] rest have "length r < length cs" by simp
    moreover from t sk num have "json_value (Suc k) cs = Some (v, r)" for k by auto
    ultimately show ?thesis by (rule scalar)
  next
    case lit
    with run sk have t: "json_literal (c # rest) = Some (v, r)"
      by auto
    from json_literal_length [OF this] rest have "length r < length cs" by simp
    moreover from t sk lit have "json_value (Suc k) cs = Some (v, r)" for k by auto
    ultimately show ?thesis by (rule scalar)
  qed
qed

lemma json_elements_step:
  assumes "value": "\<And>cs v r. json_value n cs = Some (v, r) \<Longrightarrow>
      length r < length cs \<and>
      (\<forall>m. 2 * (length cs - length r) \<le> m \<longrightarrow> json_value m cs = Some (v, r))"
    and elements: "\<And>cs vs r. json_elements n cs = Some (vs, r) \<Longrightarrow>
      length r < length cs \<and>
      (\<forall>m. 2 * (length cs - length r) \<le> m \<longrightarrow> json_elements m cs = Some (vs, r))"
    and run: "json_elements (Suc n) cs = Some (vs, r)"
  shows "length r < length cs \<and>
      (\<forall>m. 2 * (length cs - length r) \<le> m \<longrightarrow> json_elements m cs = Some (vs, r))"
proof -
  from run obtain v r1 where v: "json_value n cs = Some (v, r1)"
    by (auto split: option.splits)
  from "value" [OF v] have r1: "length r1 < length cs"
    and v_enough: "\<And>m. 2 * (length cs - length r1) \<le> m \<Longrightarrow> json_value m cs = Some (v, r1)"
    by auto
  from run v obtain c r' where sk: "skip_ws r1 = c # r'"
    by (auto split: list.splits)
  have r': "length r' < length r1"
    by (rule skip_ws_Cons_length [OF sk])
  show ?thesis
  proof (cases "c = 0x2C")
    case True
    with run v sk obtain vs' where more: "json_elements n r' = Some (vs', r)"
      and vs: "vs = v # vs'"
      by (auto split: option.splits)
    from elements [OF more] have short: "length r < length r'"
      and enough: "\<And>m. 2 * (length r' - length r) \<le> m \<Longrightarrow> json_elements m r' = Some (vs', r)"
      by auto
    show ?thesis
    proof (intro conjI allI impI)
      from short r' r1 show "length r < length cs" by simp
      fix m assume m: "2 * (length cs - length r) \<le> m"
      with short r' r1 obtain k where k: "m = Suc k" by (cases m) auto
      with m short r' r1 have "2 * (length cs - length r1) \<le> k"
        and "2 * (length r' - length r) \<le> k"
        by simp_all
      with v_enough enough have "json_value k cs = Some (v, r1)"
        and "json_elements k r' = Some (vs', r)"
        by simp_all
      with k sk True vs show "json_elements m cs = Some (vs, r)" by simp
    qed
  next
    case False
    with run v sk have close: "c = 0x5D" and vs: "vs = [v]" and r: "r = r'"
      by (auto split: if_splits)
    show ?thesis
    proof (intro conjI allI impI)
      from r r' r1 show "length r < length cs" by simp
      fix m assume m: "2 * (length cs - length r) \<le> m"
      with r r' r1 obtain k where k: "m = Suc k" by (cases m) auto
      with m r r' r1 have "2 * (length cs - length r1) \<le> k" by simp
      with v_enough have "json_value k cs = Some (v, r1)" by simp
      with k sk close vs r show "json_elements m cs = Some (vs, r)" by simp
    qed
  qed
qed

lemma json_members_step:
  assumes "value": "\<And>cs v r. json_value n cs = Some (v, r) \<Longrightarrow>
      length r < length cs \<and>
      (\<forall>m. 2 * (length cs - length r) \<le> m \<longrightarrow> json_value m cs = Some (v, r))"
    and members: "\<And>cs ms r. json_members n cs = Some (ms, r) \<Longrightarrow>
      length r < length cs \<and>
      (\<forall>m. 2 * (length cs - length r) \<le> m \<longrightarrow> json_members m cs = Some (ms, r))"
    and run: "json_members (Suc n) cs = Some (ms, r)"
  shows "length r < length cs \<and>
      (\<forall>m. 2 * (length cs - length r) \<le> m \<longrightarrow> json_members m cs = Some (ms, r))"
proof -
  from run obtain q r0 where sk0: "skip_ws cs = q # r0" and q: "q = 0x22"
    by (auto split: list.splits if_splits)
  have r0: "length r0 < length cs"
    by (rule skip_ws_Cons_length [OF sk0])
  from run sk0 q obtain k0 r1 where key: "json_string_chars r0 = Some (k0, r1)"
    by (auto split: option.splits)
  have r1: "length r1 < length r0"
    by (rule json_string_chars_length [OF key])
  from run sk0 q key obtain c r2 where sk1: "skip_ws r1 = c # r2" and c: "c = 0x3A"
    by (auto split: list.splits if_splits)
  have r2: "length r2 < length r1"
    by (rule skip_ws_Cons_length [OF sk1])
  from run sk0 q key sk1 c obtain v r3 where v: "json_value n r2 = Some (v, r3)"
    by (auto split: option.splits)
  from "value" [OF v] have r3: "length r3 < length r2"
    and v_enough: "\<And>m. 2 * (length r2 - length r3) \<le> m \<Longrightarrow> json_value m r2 = Some (v, r3)"
    by auto
  from run sk0 q key sk1 c v obtain e r4 where sk3: "skip_ws r3 = e # r4"
    by (auto split: list.splits)
  have r4: "length r4 < length r3"
    by (rule skip_ws_Cons_length [OF sk3])
  show ?thesis
  proof (cases "e = 0x2C")
    case True
    with run sk0 q key sk1 c v sk3 obtain ms' where more: "json_members n r4 = Some (ms', r)"
      and ms: "ms = (k0, v) # ms'"
      by (auto split: option.splits)
    from members [OF more] have short: "length r < length r4"
      and enough: "\<And>m. 2 * (length r4 - length r) \<le> m \<Longrightarrow> json_members m r4 = Some (ms', r)"
      by auto
    show ?thesis
    proof (intro conjI allI impI)
      from short r4 r3 r2 r1 r0 show "length r < length cs" by simp
      fix m assume m: "2 * (length cs - length r) \<le> m"
      with short r4 r3 r2 r1 r0 obtain k where k: "m = Suc k" by (cases m) auto
      with m short r4 r3 r2 r1 r0 have "2 * (length r2 - length r3) \<le> k"
        and "2 * (length r4 - length r) \<le> k"
        by simp_all
      with v_enough enough have "json_value k r2 = Some (v, r3)"
        and "json_members k r4 = Some (ms', r)"
        by simp_all
      with k sk0 q key sk1 c sk3 True ms show "json_members m cs = Some (ms, r)" by simp
    qed
  next
    case False
    with run sk0 q key sk1 c v sk3 have close: "e = 0x7D" and ms: "ms = [(k0, v)]" and r: "r = r4"
      by (auto split: if_splits)
    show ?thesis
    proof (intro conjI allI impI)
      from r r4 r3 r2 r1 r0 show "length r < length cs" by simp
      fix m assume m: "2 * (length cs - length r) \<le> m"
      with r r4 r3 r2 r1 r0 obtain k where k: "m = Suc k" by (cases m) auto
      with m r r4 r3 r2 r1 r0 have "2 * (length r2 - length r3) \<le> k" by simp
      with v_enough have "json_value k r2 = Some (v, r3)" by simp
      with k sk0 q key sk1 c sk3 close ms r show "json_members m cs = Some (ms, r)" by simp
    qed
  qed
qed

lemma json_fuel:
  "(\<forall>cs v r. json_value n cs = Some (v, r) \<longrightarrow>
      length r < length cs \<and>
      (\<forall>m. 2 * (length cs - length r) \<le> m \<longrightarrow> json_value m cs = Some (v, r))) \<and>
   (\<forall>cs vs r. json_elements n cs = Some (vs, r) \<longrightarrow>
      length r < length cs \<and>
      (\<forall>m. 2 * (length cs - length r) \<le> m \<longrightarrow> json_elements m cs = Some (vs, r))) \<and>
   (\<forall>cs ms r. json_members n cs = Some (ms, r) \<longrightarrow>
      length r < length cs \<and>
      (\<forall>m. 2 * (length cs - length r) \<le> m \<longrightarrow> json_members m cs = Some (ms, r)))"
proof (induction n)
  case 0
  show ?case by simp
next
  case (Suc n)
  then have v: "\<And>cs v r. json_value n cs = Some (v, r) \<Longrightarrow>
      length r < length cs \<and>
      (\<forall>m. 2 * (length cs - length r) \<le> m \<longrightarrow> json_value m cs = Some (v, r))"
    and e: "\<And>cs vs r. json_elements n cs = Some (vs, r) \<Longrightarrow>
      length r < length cs \<and>
      (\<forall>m. 2 * (length cs - length r) \<le> m \<longrightarrow> json_elements m cs = Some (vs, r))"
    and m: "\<And>cs ms r. json_members n cs = Some (ms, r) \<Longrightarrow>
      length r < length cs \<and>
      (\<forall>m. 2 * (length cs - length r) \<le> m \<longrightarrow> json_members m cs = Some (ms, r))"
    by blast+
  show ?case
    using json_value_step [OF m e] json_elements_step [OF v e] json_members_step [OF v m]
    by blast
qed

text \<open>
  The fuel of \<open>JSON_parse\<close> is enough: whatever a run of the parser finds on some fuel, the
  run on \<open>2 * length text + 1\<close> finds too.
\<close>

lemma json_value_fuel:
  assumes "json_value n cs = Some (v, r)"
  shows "json_value (2 * length cs + 1) cs = Some (v, r)"
proof -
  from json_fuel [of n] assms
  have "\<forall>m. 2 * (length cs - length r) \<le> m \<longrightarrow> json_value m cs = Some (v, r)"
    by blast
  moreover have "2 * (length cs - length r) \<le> 2 * length cs + 1" by simp
  ultimately show ?thesis by blast
qed

lemma JSON_parse_fuel:
  "JSON_parse text = Inr v \<longleftrightarrow> (\<exists>n r. json_value n text = Some (v, r) \<and> skip_ws r = [])"
proof
  assume "JSON_parse text = Inr v"
  then obtain r where "json_value (2 * length text + 1) text = Some (v, r)"
    and "skip_ws r = []"
    unfolding JSON_parse_def
    by (cases "json_value (2 * length text + 1) text")
      (auto simp del: json_value.simps split: if_splits)
  then show "\<exists>n r. json_value n text = Some (v, r) \<and> skip_ws r = []"
    by blast
next
  assume "\<exists>n r. json_value n text = Some (v, r) \<and> skip_ws r = []"
  then obtain n r where "json_value n text = Some (v, r)" and "skip_ws r = []" by blast
  with json_value_fuel [of n "text" v r] show "JSON_parse text = Inr v"
    by (simp add: JSON_parse_def)
qed

subsection \<open>What the inner \<^verbatim>\<open>try\<close> block throws\<close>

text \<open>
  Only Error objects: the handler of the inner block can always read the message.
\<close>

lemma JSON_parse_Inl: "JSON_parse jsonMatch = Inl e \<Longrightarrow> e = SyntaxError"
  unfolding JSON_parse_def
  by (cases "json_value (2 * length jsonMatch + 1) jsonMatch")
    (auto simp del: json_value.simps split: if_splits)

lemma get_prop_Inl: "get_prop v k = Inl e \<Longrightarrow> e = TypeError"
  by (cases v) auto

lemma normalize_suggestion_Inl: "normalize_suggestion s = Inl e \<Longrightarrow> e = TypeError"
  by (auto simp: normalize_suggestion_def split: sum.splits dest: get_prop_Inl)

lemma map_suggestions_Inl: "map_suggestions xs = Inl e \<Longrightarrow> e = TypeError"
  by (induction xs) (auto split: sum.splits dest: normalize_suggestion_Inl)

lemma call_map_Inl: "call_map v = Inl e \<Longrightarrow> e = TypeError"
  by (cases v) (auto dest: map_suggestions_Inl)

lemma parse_analysis_Inl: "parse_analysis body = Inl e \<Longrightarrow> e \<noteq> Nullish"
  by (auto simp: parse_analysis_def
      split: option.splits sum.splits if_splits
      dest: JSON_parse_Inl get_prop_Inl call_map_Inl)

lemma inner_try_catch:
  "try_catch (parse_analysis body) catch_parseError =
     (case parse_analysis body of Inl e \<Rightarrow> Inr getFallbackResponse | Inr r \<Rightarrow> Inr r)"
proof (cases "parse_analysis body")
  case (Inl e)
  from parse_analysis_Inl [OF this] have "read_message e = Inr ()"
    by (cases e) auto
  with Inl show ?thesis by (simp add: try_catch_def catch_parseError_def)
next
  case (Inr r)
  then show ?thesis by (simp add: try_catch_def)
qed

subsection \<open>The control flow of \<^verbatim>\<open>analyzeReport\<close>\<close>

lemma analyzeReport_None:
  "analyzeReport None generateContent report w = (Some (Inr getFallbackResponse), w)"
  by (simp add: analyzeReport_def)

lemma analyzeReport_Some:
  "analyzeReport (Some m) generateContent report w =
     (map_option (\<lambda>body. try_catch body catch_error)
        (after_race (fst (race (generateContent (ANALYSIS_PROMPT @ report))))),
      w\<lparr>network_calls := network_calls w + 1,
        clock := clock w + snd (race (generateContent (ANALYSIS_PROMPT @ report)))\<rparr>)"
  by (simp add: analyzeReport_def Let_def split: prod.splits)

lemma race_late: "\<not> settles_within timeoutMs g \<Longrightarrow> race g = (Inl timed_out, timeoutMs)"
  by (cases g) auto

lemma caught_Inl:
  "try_catch (Inl e) catch_error = (if e = Nullish then Inl TypeError else Inr getFallbackResponse)"
  by (cases e) (simp_all add: try_catch_def catch_error_def)

lemma caught_timed_out: "try_catch (Inl timed_out) catch_error = Inr getFallbackResponse"
  by (simp add: caught_Inl timed_out_def)

lemma caught_inner:
  "try_catch (try_catch (parse_analysis body) catch_parseError) catch_error =
     (case parse_analysis body of Inl e \<Rightarrow> Inr getFallbackResponse | Inr r \<Rightarrow> Inr r)"
  unfolding inner_try_catch
  by (cases "parse_analysis body") (simp_all add: try_catch_def)

text \<open>
  What a run on a configured service comes to, by what the call does before the timer
  fires; after it, and when the call hangs, the timer's rejection is caught.
\<close>

lemma analyzeReport_timeout:
  assumes "\<not> settles_within timeoutMs (generateContent (ANALYSIS_PROMPT @ report))
      \<or> (\<exists>t x. generateContent (ANALYSIS_PROMPT @ report) = Resolves t x \<and> timeoutMs \<le> t)
      \<or> (\<exists>t e. generateContent (ANALYSIS_PROMPT @ report) = Rejects t e \<and> timeoutMs \<le> t)"
  shows "analyzeReport (Some m) generateContent report w
      = (Some (Inr getFallbackResponse),
         w\<lparr>network_calls := network_calls w + 1, clock := clock w + timeoutMs\<rparr>)"
proof -
  from assms
  have "race (generateContent (ANALYSIS_PROMPT @ report)) = (Inl timed_out, timeoutMs)"
    by (cases "generateContent (ANALYSIS_PROMPT @ report)") auto
  then show ?thesis
    by (simp add: analyzeReport_Some after_race_def caught_timed_out)
qed

lemma analyzeReport_rejected:
  assumes "generateContent (ANALYSIS_PROMPT @ report) = Rejects t e
      \<or> generateContent (ANALYSIS_PROMPT @ report) = Resolves t (Text_throws e)
      \<or> generateContent (ANALYSIS_PROMPT @ report) = Resolves t (Response_rejects e)"
    and "t < timeoutMs"
  shows "analyzeReport (Some m) generateContent report w
      = (Some (if e = Nullish then Inl TypeError else Inr getFallbackResponse),
         w\<lparr>network_calls := network_calls w + 1, clock := clock w + t\<rparr>)"
  using assms by (auto simp: analyzeReport_Some after_race_def caught_Inl)

lemma analyzeReport_pending:
  assumes "generateContent (ANALYSIS_PROMPT @ report) = Resolves t Response_pending"
    and "t < timeoutMs"
  shows "analyzeReport (Some m) generateContent report w
      = (None, w\<lparr>network_calls := network_calls w + 1, clock := clock w + t\<rparr>)"
  using assms by (simp add: analyzeReport_Some after_race_def)

lemma analyzeReport_parsed:
  assumes "generateContent (ANALYSIS_PROMPT @ report) = Resolves t (Text body)"
    and "t < timeoutMs" and "parse_analysis body = Inr r"
  shows "analyzeReport (Some m) generateContent report w
      = (Some (Inr r), w\<lparr>network_calls := network_calls w + 1, clock := clock w + t\<rparr>)"
  using assms caught_inner [of body] by (simp add: analyzeReport_Some after_race_def)

lemma analyzeReport_unparsed:
  assumes "generateContent (ANALYSIS_PROMPT @ report) = Resolves t (Text body)"
    and "t < timeoutMs" and "parse_analysis body = Inl e"
  shows "analyzeReport (Some m) generateContent report w
      = (Some (Inr getFallbackResponse),
         w\<lparr>network_calls := network_calls w + 1, clock := clock w + t\<rparr>)"
  using assms caught_inner [of body] by (simp add: analyzeReport_Some after_race_def)

text \<open>
  Every run ends in one of four ways: with the fallback; with the result the inner
  \<^verbatim>\<open>try\<close> block built from a text that arrived before the timer; with a TypeError
  thrown by the outer handler on a \<^verbatim>\<open>null\<close> or \<^verbatim>\<open>undefined\<close> that arrived before the
  timer; or never, on a \<^verbatim>\<open>result.response\<close> that never settles.
\<close>

lemma analyzeReport_cases:
  "fst (analyzeReport model generateContent report w) = Some (Inr getFallbackResponse)
   \<or> (\<exists>m t body r. model = Some m
        \<and> generateContent (ANALYSIS_PROMPT @ report) = Resolves t (Text body)
        \<and> t < timeoutMs \<and> parse_analysis body = Inr r
        \<and> fst (analyzeReport model generateContent report w) = Some (Inr r))
   \<or> (\<exists>m t. model = Some m \<and> t < timeoutMs
        \<and> (generateContent (ANALYSIS_PROMPT @ report) = Rejects t Nullish
           \<or> generateContent (ANALYSIS_PROMPT @ report) = Resolves t (Text_throws Nullish)
           \<or> generateContent (ANALYSIS_PROMPT @ report) = Resolves t (Response_rejects Nullish))
        \<and> fst (analyzeReport model generateContent report w) = Some (Inl TypeError))
   \<or> (\<exists>m t. model = Some m \<and> t < timeoutMs
        \<and> generateContent (ANALYSIS_PROMPT @ report) = Resolves t Response_pending
        \<and> fst (analyzeReport model generateContent report w) = None)"
proof (cases model)
  case None
  then show ?thesis by (simp add: analyzeReport_None)
next
  case (Some m)
  let ?g = "generateContent (ANALYSIS_PROMPT @ report)"
  show ?thesis
  proof (cases ?g)
    case Hangs
    then have "\<not> settles_within timeoutMs ?g" by simp
    with Some show ?thesis by (simp add: analyzeReport_timeout)
  next
    case (Rejects t e)
    show ?thesis
    proof (cases "t < timeoutMs")
      case True
      with Some Rejects show ?thesis
        by (simp add: analyzeReport_rejected [where t = t and e = e])
    next
      case False
      with Some Rejects show ?thesis by (simp add: analyzeReport_timeout)
    qed
  next
    case (Resolves t x)
    show ?thesis
    proof (cases "t < timeoutMs")
      case False
      with Some Resolves show ?thesis by (simp add: analyzeReport_timeout)
    next
      case True
      show ?thesis
      proof (cases x)
        case (Text body)
        show ?thesis
        proof (cases "parse_analysis body")
          case (Inl e)
          with Some Resolves True Text show ?thesis
            by (simp add: analyzeReport_unparsed [where t = t and body = body and e = e])
        next
          case (Inr r)
          with Some Resolves True Text show ?thesis
            by (simp add: analyzeReport_parsed [where t = t and body = body])
        qed
      next
        case (Text_throws e)
        with Some Resolves True show ?thesis
          by (simp add: analyzeReport_rejected [where t = t and e = e])
      next
        case (Response_rejects e)
        with Some Resolves True show ?thesis
          by (simp add: analyzeReport_rejected [where t = t and e = e])
      next
        case Response_pending
        with Some Resolves True show ?thesis
          by (simp add: analyzeReport_pending [where t = t])
      qed
    qed
  qed
qed


subsection \<open>The inner \<^verbatim>\<open>try\<close> block\<close>


text \<open>What an analyzed result guarantees of its category and its severity.\<close>

lemma parse_analysis_truthy:
  "parse_analysis body = Inr r \<Longrightarrow> truthy (aiCategory r) \<and> truthy (aiSeverity r)"
  by (auto simp: parse_analysis_def falsy_def split: option.splits sum.splits if_splits)

lemma parse_analysis_missing:
  assumes "regex_match body = Some jsonMatch" and "JSON_parse jsonMatch = Inr analysis"
    and "k \<in> {js ''category'', js ''severity'', js ''suggestions''}"
    and "get_prop analysis k = Inr x" and "falsy x"
  shows "\<exists>e. parse_analysis body = Inl e"
  using assms
  by (auto simp: parse_analysis_def split: sum.splits)

lemma get_prop_not_null: "s \<noteq> JNull \<Longrightarrow> \<exists>p. get_prop s k = Inr p"
  by (cases s) auto

lemma normalize_suggestion_Inr:
  "normalize_suggestion s = Inr x \<longleftrightarrow>
     s \<noteq> JNull \<and>
     (\<exists>t n d c. get_prop s (js ''type'') = Inr t \<and> get_prop s (js ''name'') = Inr n \<and>
        get_prop s (js ''description'') = Inr d \<and> get_prop s (js ''contact'') = Inr c \<and>
        x = \<lparr>type = or_default t (JString (js ''other'')),
             name = or_default n (JString (js ''Resource'')),
             description = or_default d (JString []),
             contact = or_default c (JString [])\<rparr>)"
  by (cases s) (auto simp: normalize_suggestion_def split: sum.splits)

lemma map_suggestions_Inr:
  "map_suggestions xs = Inr sugs \<Longrightarrow>
     length sugs = length xs \<and> (\<forall>i<length xs. normalize_suggestion (xs ! i) = Inr (sugs ! i))"
proof (induction xs arbitrary: sugs)
  case Nil
  then show ?case by simp
next
  case (Cons x xs)
  then obtain y ys where y: "normalize_suggestion x = Inr y" and ys: "map_suggestions xs = Inr ys"
    and s: "sugs = y # ys"
    by (auto split: sum.splits)
  from Cons.IH [OF ys] y s show ?case
    by (auto simp: nth_Cons split: nat.splits)
qed

lemma map_suggestions_total:
  "JNull \<notin> set xs \<Longrightarrow> \<exists>sugs. map_suggestions xs = Inr sugs"
proof (induction xs)
  case Nil
  then show ?case by simp
next
  case (Cons x xs)
  then have "x \<noteq> JNull" by auto
  then obtain y where "normalize_suggestion x = Inr y"
    using normalize_suggestion_Inr [of x] get_prop_not_null [of x] by metis
  with Cons show ?case by auto
qed



lemma parse_analysis_success:
  assumes "regex_match body = Some jsonMatch" and "JSON_parse jsonMatch = Inr analysis"
    and "get_prop analysis (js ''category'') = Inr (Some c)" and "truthy c"
    and "get_prop analysis (js ''severity'') = Inr (Some s)" and "truthy s"
    and "get_prop analysis (js ''suggestions'') = Inr (Some (JArray xs))"
    and "get_prop analysis (js ''summary'') = Inr summary"
    and "map_suggestions xs = Inr sugs"
  shows "parse_analysis body =
      Inr \<lparr>aiAnalyzed = True, aiCategory = c, aiSeverity = s,
           aiSummary = or_default summary (JString (js ''Analysis completed'')),
           aiSuggestions = sugs\<rparr>"
  using assms by (simp add: parse_analysis_def falsy_def)

subsection \<open>The span the regular expression finds\<close>

lemma greedy_to_brace_none: "0x7D \<notin> set cs \<Longrightarrow> greedy_to_brace cs = None"
  by (induction cs) auto

lemma greedy_to_brace_last:
  "0x7D \<notin> set post \<Longrightarrow> greedy_to_brace (mid @ 0x7D # post) = Some (mid @ [0x7D])"
  by (induction mid) (auto simp: greedy_to_brace_none)

text \<open>
  With no opening brace before the object and no closing brace after it, the match is the
  object.
\<close>

lemma regex_match_span:
  assumes "0x7B \<notin> set pre" and "0x7D \<notin> set post"
  shows "regex_match (pre @ (0x7B # mid @ [0x7D]) @ post) = Some (0x7B # mid @ [0x7D])"
  using assms(1)
proof (induction pre)
  case Nil
  then show ?case
    using greedy_to_brace_last [OF assms(2), of mid] by (simp add: match_here_def)
next
  case (Cons c pre)
  then show ?case by (simp add: match_here_def)
qed


subsection \<open>Totality and the fallback\<close>




subsection \<open>Values outside the enumerations\<close>

text \<open>
  Claim C2 says that a result with \<^verbatim>\<open>aiAnalyzed\<close> true has its category among
  \<^verbatim>\<open>harassment corruption abuse discrimination other\<close> and its severity among
  \<^verbatim>\<open>low medium high critical\<close>, any other value sending the whole result to the
  fallback. The service tests the two fields for truthiness only. Here the model answers
  with the category \<^verbatim>\<open>fraud\<close> and the severity \<^verbatim>\<open>urgent\<close>: the result is returned
  as analyzed with both values, neither of which the Report schema admits.
\<close>

theorem unlisted_category_is_returned:
  \<open>analyzeReport (Some (GenerativeModel (js ''gemini-2.5-flash'')))
      (\<lambda>prompt. Resolves 1200 (Text (js
         ''{"category":"fraud","severity":"urgent","summary":"A permit officer asked for a bribe.","suggestions":[]}'')))
      (js ''The permit officer asked me for money to approve my file'')
      \<lparr>network_calls = 0, clock = 0\<rparr>
    = (Some (Inr \<lparr>aiAnalyzed = True,
            aiCategory = JString (js ''fraud''),
            aiSeverity = JString (js ''urgent''),
            aiSummary = JString (js ''A permit officer asked for a bribe.''),
            aiSuggestions = []\<rparr>),
       \<lparr>network_calls = 1, clock = 1200\<rparr>)
   \<and> js ''fraud'' \<notin> set aiCategory_enum
   \<and> js ''urgent'' \<notin> set aiSeverity_enum\<close>
proof -
  have \<open>parse_analysis (js
         ''{"category":"fraud","severity":"urgent","summary":"A permit officer asked for a bribe.","suggestions":[]}'')
    = Inr \<lparr>aiAnalyzed = True,
            aiCategory = JString (js ''fraud''),
            aiSeverity = JString (js ''urgent''),
            aiSummary = JString (js ''A permit officer asked for a bribe.''),
            aiSuggestions = []\<rparr>\<close>
    by code_simp
  then have \<open>analyzeReport (Some (GenerativeModel (js ''gemini-2.5-flash'')))
      (\<lambda>prompt. Resolves 1200 (Text (js
         ''{"category":"fraud","severity":"urgent","summary":"A permit officer asked for a bribe.","suggestions":[]}'')))
      (js ''The permit officer asked me for money to approve my file'')
      \<lparr>network_calls = 0, clock = 0\<rparr>
    = (Some (Inr \<lparr>aiAnalyzed = True,
            aiCategory = JString (js ''fraud''),
            aiSeverity = JString (js ''urgent''),
            aiSummary = JString (js ''A permit officer asked for a bribe.''),
            aiSuggestions = []\<rparr>),
       \<lparr>network_calls = 1, clock = 1200\<rparr>)\<close>
    by (simp add: analyzeReport_parsed [where t = 1200] timeoutMs_def)
  moreover have "js ''fraud'' \<notin> set aiCategory_enum"
    by code_simp
  moreover have "js ''urgent'' \<notin> set aiSeverity_enum"
    by code_simp
  ultimately show ?thesis by (intro conjI)
qed


subsection \<open>The fallback payload\<close>



subsection \<open>A JSON object inside prose\<close>

text \<open>
  Claim C4 says that a response containing a well-formed object with \<^verbatim>\<open>category\<close>,
  \<^verbatim>\<open>severity\<close> and \<^verbatim>\<open>suggestions\<close> is analyzed whatever prose surrounds the object.
  The regular expression runs from the first opening brace of the text to its last
  closing brace, so a brace in the prose widens the span and the parse fails. Here the
  object of the specification's second example is followed by prose that names the
  fields in braces: the object alone parses, the response gives the fallback.
\<close>

theorem prose_with_braces_gives_fallback:
  \<open>JSON_parse (js ''{"category":"abuse","severity":"low","suggestions":[]}'')
     = Inr (JObject [(js ''category'', JString (js ''abuse'')),
                     (js ''severity'', JString (js ''low'')),
                     (js ''suggestions'', JArray [])])
   \<and> analyzeReport (Some (GenerativeModel (js ''gemini-2.5-flash'')))
      (\<lambda>prompt. Resolves 1200 (Text (js
         ''Here you go: {"category":"abuse","severity":"low","suggestions":[]} (fields: {category, severity, suggestions})'')))
      (js ''My manager threatens me every day'')
      \<lparr>network_calls = 0, clock = 0\<rparr>
    = (Some (Inr getFallbackResponse), \<lparr>network_calls = 1, clock = 1200\<rparr>)\<close>
proof -
  have \<open>JSON_parse (js ''{"category":"abuse","severity":"low","suggestions":[]}'')
     = Inr (JObject [(js ''category'', JString (js ''abuse'')),
                     (js ''severity'', JString (js ''low'')),
                     (js ''suggestions'', JArray [])])\<close>
    by code_simp
  moreover have \<open>parse_analysis (js
         ''Here you go: {"category":"abuse","severity":"low","suggestions":[]} (fields: {category, severity, suggestions})'')
     = Inl SyntaxError\<close>
    by code_simp
  then have \<open>analyzeReport (Some (GenerativeModel (js ''gemini-2.5-flash'')))
      (\<lambda>prompt. Resolves 1200 (Text (js
         ''Here you go: {"category":"abuse","severity":"low","suggestions":[]} (fields: {category, severity, suggestions})'')))
      (js ''My manager threatens me every day'')
      \<lparr>network_calls = 0, clock = 0\<rparr>
    = (Some (Inr getFallbackResponse), \<lparr>network_calls = 1, clock = 1200\<rparr>)\<close>
    by (simp add: analyzeReport_unparsed [where t = 1200] timeoutMs_def)
  ultimately show ?thesis by (rule conjI)
qed

text \<open>
  Claim C4, amended. Let the text hold a JSON object, with no opening brace in the prose
  before it and no closing brace in the prose after it, whose \<^verbatim>\<open>category\<close> and
  \<^verbatim>\<open>severity\<close> are truthy and whose \<^verbatim>\<open>suggestions\<close> is an array without
  \<^verbatim>\<open>null\<close>. Then the result is analyzed, carries that category and that severity, has
  the placeholder for a summary when the object has none, and one suggestion for each
  element of the array, in which every truthy field of the element is kept as it is.
  The two examples of the specification hold as written: the harassment/high response
  gives those values with its one suggestion unchanged, and the abuse/low object after
  \<^verbatim>\<open>Here you go:\<close> gives abuse, low, no suggestions and the placeholder summary.
\<close>

theorem embedded_object_is_analyzed:
  \<open>(\<forall>generateContent report t pre mid post analysis c s xs m w.
      generateContent (ANALYSIS_PROMPT @ report)
        = Resolves t (Text (pre @ (0x7B # mid @ [0x7D]) @ post)) \<and>
      t < timeoutMs \<and> 0x7B \<notin> set pre \<and> 0x7D \<notin> set post \<and>
      JSON_parse (0x7B # mid @ [0x7D]) = Inr analysis \<and>
      get_prop analysis (js ''category'') = Inr (Some c) \<and> truthy c \<and>
      get_prop analysis (js ''severity'') = Inr (Some s) \<and> truthy s \<and>
      get_prop analysis (js ''suggestions'') = Inr (Some (JArray xs)) \<and> JNull \<notin> set xs
      \<longrightarrow>
      (\<exists>r. fst (analyzeReport (Some m) generateContent report w) = Some (Inr r) \<and>
         aiAnalyzed r \<and> aiCategory r = c \<and> aiSeverity r = s \<and>
         (get_prop analysis (js ''summary'') = Inr None
            \<longrightarrow> aiSummary r = JString (js ''Analysis completed'')) \<and>
         length (aiSuggestions r) = length xs \<and>
         (\<forall>i<length xs. \<forall>v. truthy v \<longrightarrow>
            (get_prop (xs ! i) (js ''type'') = Inr (Some v)
               \<longrightarrow> type (aiSuggestions r ! i) = v) \<and>
            (get_prop (xs ! i) (js ''name'') = Inr (Some v)
               \<longrightarrow> name (aiSuggestions r ! i) = v) \<and>
            (get_prop (xs ! i) (js ''description'') = Inr (Some v)
               \<longrightarrow> description (aiSuggestions r ! i) = v) \<and>
            (get_prop (xs ! i) (js ''contact'') = Inr (Some v)
               \<longrightarrow> contact (aiSuggestions r ! i) = v)))) \<and>
   fst (analyzeReport (Some (GenerativeModel (js ''gemini-2.5-flash'')))
      (\<lambda>prompt. Resolves 1200 (Text (js
         ''{"category":"harassment","severity":"high","summary":"...","suggestions":[{"type":"legal","name":"X","description":"Y","contact":"Z"}]}'')))
      (js ''My manager threatens me every day'')
      \<lparr>network_calls = 0, clock = 0\<rparr>)
    = Some (Inr \<lparr>aiAnalyzed = True,
           aiCategory = JString (js ''harassment''),
           aiSeverity = JString (js ''high''),
           aiSummary = JString (js ''...''),
           aiSuggestions = [\<lparr>type = JString (js ''legal''), name = JString (js ''X''),
              description = JString (js ''Y''), contact = JString (js ''Z'')\<rparr>]\<rparr>) \<and>
   fst (analyzeReport (Some (GenerativeModel (js ''gemini-2.5-flash'')))
      (\<lambda>prompt. Resolves 1200 (Text (js
         ''Here you go: {"category":"abuse","severity":"low","suggestions":[]}'')))
      (js ''My manager threatens me every day'')
      \<lparr>network_calls = 0, clock = 0\<rparr>)
    = Some (Inr \<lparr>aiAnalyzed = True,
           aiCategory = JString (js ''abuse''),
           aiSeverity = JString (js ''low''),
           aiSummary = JString (js ''Analysis completed''),
           aiSuggestions = []\<rparr>)\<close>
proof (intro conjI allI impI)
  fix generateContent report t pre mid post analysis c s xs m w
  assume a: "generateContent (ANALYSIS_PROMPT @ report)
        = Resolves t (Text (pre @ (0x7B # mid @ [0x7D]) @ post)) \<and>
      t < timeoutMs \<and> 0x7B \<notin> set pre \<and> 0x7D \<notin> set post \<and>
      JSON_parse (0x7B # mid @ [0x7D]) = Inr analysis \<and>
      get_prop analysis (js ''category'') = Inr (Some c) \<and> truthy c \<and>
      get_prop analysis (js ''severity'') = Inr (Some s) \<and> truthy s \<and>
      get_prop analysis (js ''suggestions'') = Inr (Some (JArray xs)) \<and> JNull \<notin> set xs"
  let ?body = "pre @ (0x7B # mid @ [0x7D]) @ post"
  from a have span: "regex_match ?body = Some (0x7B # mid @ [0x7D])"
    by (intro regex_match_span) simp_all
  from a obtain sugs where sugs: "map_suggestions xs = Inr sugs"
    using map_suggestions_total [of xs] by blast
  from a have "analysis \<noteq> JNull" by auto
  then obtain summary where summary: "get_prop analysis (js ''summary'') = Inr summary"
    using get_prop_not_null by blast
  let ?r = "\<lparr>aiAnalyzed = True, aiCategory = c, aiSeverity = s,
           aiSummary = or_default summary (JString (js ''Analysis completed'')),
           aiSuggestions = sugs\<rparr>"
  from a span summary sugs have "parse_analysis ?body = Inr ?r"
    by (intro parse_analysis_success) auto
  with a have run: "fst (analyzeReport (Some m) generateContent report w) = Some (Inr ?r)"
    by (simp add: analyzeReport_parsed [where t = t and body = ?body])
  from map_suggestions_Inr [OF sugs]
  have len: "length sugs = length xs"
    and each: "\<And>i. i < length xs \<Longrightarrow> normalize_suggestion (xs ! i) = Inr (sugs ! i)"
    by auto
  have kept: "(get_prop (xs ! i) (js ''type'') = Inr (Some v)
               \<longrightarrow> type (sugs ! i) = v) \<and>
            (get_prop (xs ! i) (js ''name'') = Inr (Some v)
               \<longrightarrow> name (sugs ! i) = v) \<and>
            (get_prop (xs ! i) (js ''description'') = Inr (Some v)
               \<longrightarrow> description (sugs ! i) = v) \<and>
            (get_prop (xs ! i) (js ''contact'') = Inr (Some v)
               \<longrightarrow> contact (sugs ! i) = v)"
    if "i < length xs" and "truthy v" for i v
    using each [OF that(1)] that(2)
    by (auto simp: normalize_suggestion_Inr or_default_def)
  have "aiAnalyzed ?r \<and> aiCategory ?r = c \<and> aiSeverity ?r = s \<and>
         (get_prop analysis (js ''summary'') = Inr None
            \<longrightarrow> aiSummary ?r = JString (js ''Analysis completed'')) \<and>
         length (aiSuggestions ?r) = length xs \<and>
         (\<forall>i<length xs. \<forall>v. truthy v \<longrightarrow>
            (get_prop (xs ! i) (js ''type'') = Inr (Some v)
               \<longrightarrow> type (aiSuggestions ?r ! i) = v) \<and>
            (get_prop (xs ! i) (js ''name'') = Inr (Some v)
               \<longrightarrow> name (aiSuggestions ?r ! i) = v) \<and>
            (get_prop (xs ! i) (js ''description'') = Inr (Some v)
               \<longrightarrow> description (aiSuggestions ?r ! i) = v) \<and>
            (get_prop (xs ! i) (js ''contact'') = Inr (Some v)
               \<longrightarrow> contact (aiSuggestions ?r ! i) = v))"
    using summary len kept by (simp add: or_default_def)
  with run show "\<exists>r. fst (analyzeReport (Some m) generateContent report w) = Some (Inr r) \<and>
         aiAnalyzed r \<and> aiCategory r = c \<and> aiSeverity r = s \<and>
         (get_prop analysis (js ''summary'') = Inr None
            \<longrightarrow> aiSummary r = JString (js ''Analysis completed'')) \<and>
         length (aiSuggestions r) = length xs \<and>
         (\<forall>i<length xs. \<forall>v. truthy v \<longrightarrow>
            (get_prop (xs ! i) (js ''type'') = Inr (Some v)
               \<longrightarrow> type (aiSuggestions r ! i) = v) \<and>
            (get_prop (xs ! i) (js ''name'') = Inr (Some v)
               \<longrightarrow> name (aiSuggestions r ! i) = v) \<and>
            (get_prop (xs ! i) (js ''description'') = Inr (Some v)
               \<longrightarrow> description (aiSuggestions r ! i) = v) \<and>
            (get_prop (xs ! i) (js ''contact'') = Inr (Some v)
               \<longrightarrow> contact (aiSuggestions r ! i) = v))"
    by blast
next
  have \<open>parse_analysis (js
         ''{"category":"harassment","severity":"high","summary":"...","suggestions":[{"type":"legal","name":"X","description":"Y","contact":"Z"}]}'')
    = Inr \<lparr>aiAnalyzed = True,
           aiCategory = JString (js ''harassment''),
           aiSeverity = JString (js ''high''),
           aiSummary = JString (js ''...''),
           aiSuggestions = [\<lparr>type = JString (js ''legal''), name = JString (js ''X''),
              description = JString (js ''Y''), contact = JString (js ''Z'')\<rparr>]\<rparr>\<close>
    by code_simp
  then show \<open>fst (analyzeReport (Some (GenerativeModel (js ''gemini-2.5-flash'')))
      (\<lambda>prompt. Resolves 1200 (Text (js
         ''{"category":"harassment","severity":"high","summary":"...","suggestions":[{"type":"legal","name":"X","description":"Y","contact":"Z"}]}'')))
      (js ''My manager threatens me every day'')
      \<lparr>network_calls = 0, clock = 0\<rparr>)
    = Some (Inr \<lparr>aiAnalyzed = True,
           aiCategory = JString (js ''harassment''),
           aiSeverity = JString (js ''high''),
           aiSummary = JString (js ''...''),
           aiSuggestions = [\<lparr>type = JString (js ''legal''), name = JString (js ''X''),
              description = JString (js ''Y''), contact = JString (js ''Z'')\<rparr>]\<rparr>)\<close>
    by (simp add: analyzeReport_parsed [where t = 1200] timeoutMs_def)
next
  have \<open>parse_analysis (js
         ''Here you go: {"category":"abuse","severity":"low","suggestions":[]}'')
    = Inr \<lparr>aiAnalyzed = True,
           aiCategory = JString (js ''abuse''),
           aiSeverity = JString (js ''low''),
           aiSummary = JString (js ''Analysis completed''),
           aiSuggestions = []\<rparr>\<close>
    by code_simp
  then show \<open>fst (analyzeReport (Some (GenerativeModel (js ''gemini-2.5-flash'')))
      (\<lambda>prompt. Resolves 1200 (Text (js
         ''Here you go: {"category":"abuse","severity":"low","suggestions":[]}'')))
      (js ''My manager threatens me every day'')
      \<lparr>network_calls = 0, clock = 0\<rparr>)
    = Some (Inr \<lparr>aiAnalyzed = True,
           aiCategory = JString (js ''abuse''),
           aiSeverity = JString (js ''low''),
           aiSummary = JString (js ''Analysis completed''),
           aiSuggestions = []\<rparr>)\<close>
    by (simp add: analyzeReport_parsed [where t = 1200] timeoutMs_def)
qed

text \<open>
  The object of a response between \<^verbatim>\<open>Here you go:\<close> and \<^verbatim>\<open>Stay safe.\<close>, with one
  suggestion that has no description.
\<close>

theorem embedded_object_is_analyzed_witness:
  \<open>js ''Here you go: {"category":"abuse","severity":"low","suggestions":[{"type":"hotline","name":"Childline","contact":"1098"}]} Stay safe.''
     = js ''Here you go: ''
       @ (0x7B # js ''"category":"abuse","severity":"low","suggestions":[{"type":"hotline","name":"Childline","contact":"1098"}]'' @ [0x7D])
       @ js '' Stay safe.'' \<and>
   (\<exists>r. fst (analyzeReport (Some (GenerativeModel (js ''gemini-2.5-flash'')))
          (\<lambda>prompt. Resolves 1200 (Text (js ''Here you go: ''
             @ (0x7B # js ''"category":"abuse","severity":"low","suggestions":[{"type":"hotline","name":"Childline","contact":"1098"}]'' @ [0x7D])
             @ js '' Stay safe.'')))
          (js ''My manager threatens me every day'')
          \<lparr>network_calls = 0, clock = 0\<rparr>) = Some (Inr r) \<and>
        aiAnalyzed r \<and>
        aiCategory r = JString (js ''abuse'') \<and>
        aiSeverity r = JString (js ''low'') \<and>
        aiSummary r = JString (js ''Analysis completed'') \<and>
        length (aiSuggestions r) = 1 \<and>
        type (aiSuggestions r ! 0) = JString (js ''hotline'') \<and>
        name (aiSuggestions r ! 0) = JString (js ''Childline'') \<and>
        contact (aiSuggestions r ! 0) = JString (js ''1098''))\<close>
proof
  show \<open>js ''Here you go: {"category":"abuse","severity":"low","suggestions":[{"type":"hotline","name":"Childline","contact":"1098"}]} Stay safe.''
     = js ''Here you go: ''
       @ (0x7B # js ''"category":"abuse","severity":"low","suggestions":[{"type":"hotline","name":"Childline","contact":"1098"}]'' @ [0x7D])
       @ js '' Stay safe.''\<close>
    by code_simp
next
  let ?pre = "js ''Here you go: ''"
  let ?mid = \<open>js ''"category":"abuse","severity":"low","suggestions":[{"type":"hotline","name":"Childline","contact":"1098"}]''\<close>
  let ?post = "js '' Stay safe.''"
  let ?x = "JObject [(js ''type'', JString (js ''hotline'')),
                     (js ''name'', JString (js ''Childline'')),
                     (js ''contact'', JString (js ''1098''))]"
  let ?analysis = "JObject [(js ''category'', JString (js ''abuse'')),
                            (js ''severity'', JString (js ''low'')),
                            (js ''suggestions'', JArray [?x])]"
  let ?gc = "\<lambda>prompt::js_string. Resolves 1200 (Text (?pre @ (0x7B # ?mid @ [0x7D]) @ ?post))"
  let ?m = "GenerativeModel (js ''gemini-2.5-flash'')"
  let ?d = "js ''My manager threatens me every day''"
  let ?w = "\<lparr>network_calls = 0, clock = 0\<rparr>"
  have t: "(1200::nat) < timeoutMs"
    by (simp add: timeoutMs_def)
  have pre: "0x7B \<notin> set ?pre" and post: "0x7D \<notin> set ?post"
    by code_simp+
  have parsed: "JSON_parse (0x7B # ?mid @ [0x7D]) = Inr ?analysis"
    by code_simp
  have category: "get_prop ?analysis (js ''category'') = Inr (Some (JString (js ''abuse'')))"
    and severity: "get_prop ?analysis (js ''severity'') = Inr (Some (JString (js ''low'')))"
    and suggestions: "get_prop ?analysis (js ''suggestions'') = Inr (Some (JArray [?x]))"
    and summary: "get_prop ?analysis (js ''summary'') = Inr None"
    by code_simp+
  have truthy: "truthy (JString (js ''abuse''))" "truthy (JString (js ''low''))"
    "truthy (JString (js ''hotline''))" "truthy (JString (js ''Childline''))"
    "truthy (JString (js ''1098''))"
    by code_simp+
  have no_null: "JNull \<notin> set [?x]" by simp
  have fields: "get_prop ([?x] ! 0) (js ''type'') = Inr (Some (JString (js ''hotline'')))"
    "get_prop ([?x] ! 0) (js ''name'') = Inr (Some (JString (js ''Childline'')))"
    "get_prop ([?x] ! 0) (js ''contact'') = Inr (Some (JString (js ''1098'')))"
    by code_simp+
  from embedded_object_is_analyzed
  have "?gc (ANALYSIS_PROMPT @ ?d) = Resolves 1200 (Text (?pre @ (0x7B # ?mid @ [0x7D]) @ ?post)) \<and>
      1200 < timeoutMs \<and> 0x7B \<notin> set ?pre \<and> 0x7D \<notin> set ?post \<and>
      JSON_parse (0x7B # ?mid @ [0x7D]) = Inr ?analysis \<and>
      get_prop ?analysis (js ''category'') = Inr (Some (JString (js ''abuse''))) \<and>
      truthy (JString (js ''abuse'')) \<and>
      get_prop ?analysis (js ''severity'') = Inr (Some (JString (js ''low''))) \<and>
      truthy (JString (js ''low'')) \<and>
      get_prop ?analysis (js ''suggestions'') = Inr (Some (JArray [?x])) \<and> JNull \<notin> set [?x]
      \<longrightarrow>
      (\<exists>r. fst (analyzeReport (Some ?m) ?gc ?d ?w) = Some (Inr r) \<and>
         aiAnalyzed r \<and> aiCategory r = JString (js ''abuse'') \<and>
         aiSeverity r = JString (js ''low'') \<and>
         (get_prop ?analysis (js ''summary'') = Inr None
            \<longrightarrow> aiSummary r = JString (js ''Analysis completed'')) \<and>
         length (aiSuggestions r) = length [?x] \<and>
         (\<forall>i<length [?x]. \<forall>v. truthy v \<longrightarrow>
            (get_prop ([?x] ! i) (js ''type'') = Inr (Some v)
               \<longrightarrow> type (aiSuggestions r ! i) = v) \<and>
            (get_prop ([?x] ! i) (js ''name'') = Inr (Some v)
               \<longrightarrow> name (aiSuggestions r ! i) = v) \<and>
            (get_prop ([?x] ! i) (js ''description'') = Inr (Some v)
               \<longrightarrow> description (aiSuggestions r ! i) = v) \<and>
            (get_prop ([?x] ! i) (js ''contact'') = Inr (Some v)
               \<longrightarrow> contact (aiSuggestions r ! i) = v)))"
    by (elim conjE allE)
  with t pre post parsed category severity suggestions truthy(1,2) no_null
  obtain r where run: "fst (analyzeReport (Some ?m) ?gc ?d ?w) = Some (Inr r)"
    and r: "aiAnalyzed r" "aiCategory r = JString (js ''abuse'')"
      "aiSeverity r = JString (js ''low'')"
      "get_prop ?analysis (js ''summary'') = Inr None
         \<longrightarrow> aiSummary r = JString (js ''Analysis completed'')"
      "length (aiSuggestions r) = length [?x]"
    and each: "\<forall>i<length [?x]. \<forall>v. truthy v \<longrightarrow>
            (get_prop ([?x] ! i) (js ''type'') = Inr (Some v)
               \<longrightarrow> type (aiSuggestions r ! i) = v) \<and>
            (get_prop ([?x] ! i) (js ''name'') = Inr (Some v)
               \<longrightarrow> name (aiSuggestions r ! i) = v) \<and>
            (get_prop ([?x] ! i) (js ''description'') = Inr (Some v)
               \<longrightarrow> description (aiSuggestions r ! i) = v) \<and>
            (get_prop ([?x] ! i) (js ''contact'') = Inr (Some v)
               \<longrightarrow> contact (aiSuggestions r ! i) = v)"
    by blast
  have zero: "0 < length [?x]" by simp
  from each zero truthy(3) fields(1)
  have ty: "type (aiSuggestions r ! 0) = JString (js ''hotline'')" by blast
  from each zero truthy(4) fields(2)
  have nm: "name (aiSuggestions r ! 0) = JString (js ''Childline'')" by blast
  from each zero truthy(5) fields(3)
  have ct: "contact (aiSuggestions r ! 0) = JString (js ''1098'')" by blast
  from r(4) summary have sm: "aiSummary r = JString (js ''Analysis completed'')" by blast
  from r(5) have ln: "length (aiSuggestions r) = 1" by simp
  from run r(1-3) sm ln ty nm ct
  show \<open>\<exists>r. fst (analyzeReport (Some ?m) ?gc ?d ?w) = Some (Inr r) \<and>
        aiAnalyzed r \<and>
        aiCategory r = JString (js ''abuse'') \<and>
        aiSeverity r = JString (js ''low'') \<and>
        aiSummary r = JString (js ''Analysis completed'') \<and>
        length (aiSuggestions r) = 1 \<and>
        type (aiSuggestions r ! 0) = JString (js ''hotline'') \<and>
        name (aiSuggestions r ! 0) = JString (js ''Childline'') \<and>
        contact (aiSuggestions r ! 0) = JString (js ''1098'')\<close>
    by (intro exI [of _ r] conjI)
qed


subsection \<open>No credential, no call\<close>

text \<open>
  Claim C5. When no credential is configured (the environment variable is unset or empty)
  \<^verbatim>\<open>analyzeReport\<close> makes no network call and returns the fallback, whose
  \<^verbatim>\<open>aiAnalyzed\<close> is false, for every input text.
\<close>

theorem no_credential_no_call:
  assumes "env (js ''GEMINI_API_KEY'') = None \<or> env (js ''GEMINI_API_KEY'') = Some []"
  shows "analyzeReport (init_model (load_config env)) generateContent report w
           = (Some (Inr getFallbackResponse), w)
         \<and> network_calls (snd (analyzeReport (init_model (load_config env))
              generateContent report w)) = network_calls w
         \<and> aiAnalyzed getFallbackResponse = False"
proof -
  from assms have "init_model (load_config env) = None"
    by (auto simp: init_model_def load_config_def optionalEnv_def)
  then show ?thesis
    by (simp add: analyzeReport_None getFallbackResponse_def)
qed

theorem no_credential_no_call_witness:
  "analyzeReport (init_model (load_config Map.empty))
       (\<lambda>prompt. Resolves 800 (Text (js ''never requested'')))
       (js ''My landlord demands cash to renew the lease'')
       \<lparr>network_calls = 0, clock = 0\<rparr>
     = (Some (Inr getFallbackResponse), \<lparr>network_calls = 0, clock = 0\<rparr>)
   \<and> network_calls (snd (analyzeReport (init_model (load_config Map.empty))
       (\<lambda>prompt. Resolves 800 (Text (js ''never requested'')))
       (js ''My landlord demands cash to renew the lease'')
       \<lparr>network_calls = 0, clock = 0\<rparr>)) = 0
   \<and> aiAnalyzed getFallbackResponse = False"
  using no_credential_no_call [of Map.empty
      "\<lambda>prompt. Resolves 800 (Text (js ''never requested''))"
      "js ''My landlord demands cash to renew the lease''" "\<lparr>network_calls = 0, clock = 0\<rparr>"]
  by simp


subsection \<open>The timeout\<close>



subsection \<open>Normalization of a parsed response\<close>





subsection \<open>The length of the summary\<close>

text \<open>
  Claim C8 says that the summary of every result is at most 500 characters long. The
  service returns the summary of the model as it is. Here the model writes a summary of
  501 characters: it comes back whole, one character longer than the Report schema lets
  \<^verbatim>\<open>aiSummary\<close> be.
\<close>

theorem long_summary_is_returned:
  \<open>analyzeReport (Some (GenerativeModel (js ''gemini-2.5-flash'')))
      (\<lambda>prompt. Resolves 1200 (Text
         (js ''{"category":"abuse","severity":"low","summary":"'' @ replicate 501 (cu CHR ''a'')
            @ js ''","suggestions":[]}'')))
      (js ''The permit officer asked me for money to approve my file'')
      \<lparr>network_calls = 0, clock = 0\<rparr>
    = (Some (Inr \<lparr>aiAnalyzed = True,
            aiCategory = JString (js ''abuse''),
            aiSeverity = JString (js ''low''),
            aiSummary = JString (replicate 501 (cu CHR ''a'')),
            aiSuggestions = []\<rparr>),
       \<lparr>network_calls = 1, clock = 1200\<rparr>)
   \<and> length (replicate 501 (cu CHR ''a'')) = 501
   \<and> aiSummary_maxlength < 501\<close>
proof -
  have \<open>parse_analysis
         (js ''{"category":"abuse","severity":"low","summary":"'' @ replicate 501 (cu CHR ''a'')
            @ js ''","suggestions":[]}'')
    = Inr \<lparr>aiAnalyzed = True,
            aiCategory = JString (js ''abuse''),
            aiSeverity = JString (js ''low''),
            aiSummary = JString (replicate 501 (cu CHR ''a'')),
            aiSuggestions = []\<rparr>\<close>
    by code_simp
  then have \<open>analyzeReport (Some (GenerativeModel (js ''gemini-2.5-flash'')))
      (\<lambda>prompt. Resolves 1200 (Text
         (js ''{"category":"abuse","severity":"low","summary":"'' @ replicate 501 (cu CHR ''a'')
            @ js ''","suggestions":[]}'')))
      (js ''The permit officer asked me for money to approve my file'')
      \<lparr>network_calls = 0, clock = 0\<rparr>
    = (Some (Inr \<lparr>aiAnalyzed = True,
            aiCategory = JString (js ''abuse''),
            aiSeverity = JString (js ''low''),
            aiSummary = JString (replicate 501 (cu CHR ''a'')),
            aiSuggestions = []\<rparr>),
       \<lparr>network_calls = 1, clock = 1200\<rparr>)\<close>
    by (simp add: analyzeReport_parsed [where t = 1200] timeoutMs_def)
  moreover have "length (replicate 501 (cu CHR ''a'')) = 501"
    by simp
  moreover have "aiSummary_maxlength < 501"
    by (simp add: aiSummary_maxlength_def)
  ultimately show ?thesis by (intro conjI)
qed


subsection \<open>The status query\<close>

text \<open>
  Claim C9. \<^verbatim>\<open>getAIStatus\<close> makes no network call (it leaves the world as it is) and
  returns a record with a boolean \<^verbatim>\<open>configured\<close> and the provider name;
  \<^verbatim>\<open>configured\<close> is false exactly when no credential is set, that is when the
  environment variable is unset or empty.
\<close>

theorem getAIStatus_configured:
  "snd (getAIStatus (init_model (load_config env)) w) = w
   \<and> provider (fst (getAIStatus (init_model (load_config env)) w)) = js ''Google Gemini''
   \<and> (configured (fst (getAIStatus (init_model (load_config env)) w)) = False)
       = (env (js ''GEMINI_API_KEY'') = None \<or> env (js ''GEMINI_API_KEY'') = Some [])"
  by (auto simp: getAIStatus_def init_model_def load_config_def optionalEnv_def
      split: option.splits)


subsection \<open>Required fields are tested for truthiness\<close>

text \<open>
  Claim C10. If \<^verbatim>\<open>category\<close>, \<^verbatim>\<open>severity\<close> or \<^verbatim>\<open>suggestions\<close> is present in the
  parsed object but bound to a falsy value, the field counts as missing and the result is
  the fallback.
\<close>

theorem falsy_field_is_missing:
  assumes "generateContent (ANALYSIS_PROMPT @ report) = Resolves t (Text body)"
    and "regex_match body = Some jsonMatch"
    and "JSON_parse jsonMatch = Inr analysis"
    and "k \<in> {js ''category'', js ''severity'', js ''suggestions''}"
    and "get_prop analysis k = Inr (Some v)"
    and "\<not> truthy v"
  shows "fst (analyzeReport model generateContent report w) = Some (Inr getFallbackResponse)"
proof -
  from assms(6) have "falsy (Some v)" by (simp add: falsy_def)
  with assms(2-5) have "\<exists>e. parse_analysis body = Inl e"
    using parse_analysis_missing [of body jsonMatch analysis k "Some v"] by blast
  then have "\<And>x. parse_analysis body \<noteq> Inr x" by auto
  with assms(1) show ?thesis
    using analyzeReport_cases [of model generateContent report w] by auto
qed

text \<open>A category that is the empty string.\<close>

theorem falsy_field_is_missing_witness:
  \<open>fst (analyzeReport (Some (GenerativeModel (js ''gemini-2.5-flash'')))
        (\<lambda>prompt. Resolves 900
           (Text (js ''{"category":"","severity":"low","suggestions":[]}'')))
        (js ''My landlord demands cash to renew the lease'')
        \<lparr>network_calls = 0, clock = 0\<rparr>) = Some (Inr getFallbackResponse)\<close>
proof -
  have m: \<open>regex_match (js ''{"category":"","severity":"low","suggestions":[]}'')
      = Some (js ''{"category":"","severity":"low","suggestions":[]}'')\<close>
    by code_simp
  have p: \<open>JSON_parse (js ''{"category":"","severity":"low","suggestions":[]}'')
      = Inr (JObject [(js ''category'', JString []), (js ''severity'', JString (js ''low'')),
          (js ''suggestions'', JArray [])])\<close>
    by code_simp
  have k: "js ''category'' \<in> {js ''category'', js ''severity'', js ''suggestions''}"
    by simp
  have g: "get_prop (JObject [(js ''category'', JString []), (js ''severity'', JString (js ''low'')),
          (js ''suggestions'', JArray [])]) (js ''category'') = Inr (Some (JString []))"
    by code_simp
  have f: "\<not> truthy (JString [])" by simp
  show ?thesis
    by (rule falsy_field_is_missing [OF _ m p k g f]) simp
qed

end
